theory Spec2Isabelle
  imports Complex_Main "HOL-Library.AList"
begin

section \<open>Values, errors and the JavaScript runtime\<close>

text \<open>
  The values a store is given are JSON data. \<^verbatim>\<open>undefined\<close> is \<open>None\<close>.
\<close>

datatype json =
    JNull
  | JBool bool
  | JNum rat
  | JStr string
  | JArr "json list"
  | JObj "(string \<times> json) list"

type_synonym jsobject = "(string \<times> json) list"

text \<open>
  What reading a property can give: JSON data, or an object or function that the
  runtime provides (\<^verbatim>\<open>Object.prototype\<close>, \<^verbatim>\<open>Object.prototype.toString\<close>, ...), named
  by where it lives.
\<close>

datatype jsvalue = Data json | Builtin string

datatype error = Error string

text \<open>
  A JavaScript object used as a dictionary (\<^verbatim>\<open>Record<string, T>\<close>) has its own
  properties, an association list in insertion order, and a prototype. An object
  literal and the result of \<^verbatim>\<open>JSON.parse\<close> have \<^verbatim>\<open>Object.prototype\<close> as prototype;
  assigning to \<^verbatim>\<open>__proto__\<close> can replace it by \<^verbatim>\<open>null\<close>, by a plain object or by
  an array.
\<close>

datatype prototype =
    Object_prototype
  | Null_prototype
  | Plain_prototype jsobject
  | Array_prototype "json list"

record js_object =
  own :: jsobject
  proto :: prototype

text \<open>
  The functions of the JavaScript runtime that the code calls and that are not part of
  the repository are parameters: \<^verbatim>\<open>JSON.stringify(data, null, 2)\<close> (it prints the own
  properties), \<^verbatim>\<open>JSON.parse\<close> (\<open>None\<close> when it throws; a backing file is a mapping, a
  text whose top-level value is not an object is outside the file format), the
  numeric coercion \<^verbatim>\<open>ToNumber\<close> of values other than numbers, booleans and
  \<^verbatim>\<open>null\<close> (\<open>None\<close> for NaN), and what an array has under a key other than
  \<^verbatim>\<open>__proto__\<close>: \<^verbatim>\<open>xs[key]\<close> and \<^verbatim>\<open>key in xs\<close>, through \<^verbatim>\<open>Array.prototype\<close>.
\<close>

record js_runtime =
  JSON_stringify :: "jsobject \<Rightarrow> string"
  JSON_parse :: "string \<Rightarrow> jsobject option"
  ToNumber :: "jsvalue \<Rightarrow> rat option"
  ArrayGet :: "json list \<Rightarrow> string \<Rightarrow> jsvalue option"
  ArrayHas :: "json list \<Rightarrow> string \<Rightarrow> bool"

text \<open>The relational operator \<^verbatim>\<open>v >= n\<close> of JavaScript for a number \<open>n\<close>.\<close>

definition js_ge :: "js_runtime \<Rightarrow> jsvalue \<Rightarrow> rat \<Rightarrow> bool" where
  "js_ge rt v n =
     (case v of
        Data (JNum x) \<Rightarrow> n \<le> x
      | Data JNull \<Rightarrow> n \<le> 0
      | Data (JBool b) \<Rightarrow> n \<le> (if b then 1 else 0)
      | _ \<Rightarrow> (case ToNumber rt v of None \<Rightarrow> False | Some x \<Rightarrow> n \<le> x))"

subsection \<open>Property access\<close>

text \<open>
  The string-keyed properties of \<^verbatim>\<open>Object.prototype\<close>. All are data properties that
  can be written, but \<^verbatim>\<open>__proto__\<close>, an accessor whose getter returns the prototype
  of the object it is read on and whose setter replaces that prototype when it is
  given an object or \<^verbatim>\<open>null\<close>, and does nothing otherwise.
\<close>

definition Object_prototype_members :: "string list" where
  "Object_prototype_members =
     [''constructor'', ''__defineGetter__'', ''__defineSetter__'', ''hasOwnProperty'',
      ''__lookupGetter__'', ''__lookupSetter__'', ''isPrototypeOf'', ''propertyIsEnumerable'',
      ''toString'', ''valueOf'', ''__proto__'', ''toLocaleString'']"

definition Object_prototype_get :: "string \<Rightarrow> jsvalue option" where
  "Object_prototype_get key =
     (if key = ''__proto__'' then Some (Builtin ''Object.prototype'')
      else if key \<in> set Object_prototype_members then Some (Builtin (''Object.prototype.'' @ key))
      else None)"

text \<open>
  What a read of \<open>key\<close> finds on the prototype chain of an object that has no own
  property \<open>key\<close>, and whether the chain has the key at all.
\<close>

definition inherited_get :: "js_runtime \<Rightarrow> prototype \<Rightarrow> string \<Rightarrow> jsvalue option" where
  "inherited_get rt p key =
     (case p of
        Object_prototype \<Rightarrow> Object_prototype_get key
      | Null_prototype \<Rightarrow> None
      | Plain_prototype kvs \<Rightarrow>
          (case map_of kvs key of
             Some x \<Rightarrow> Some (Data x)
           | None \<Rightarrow> if key = ''__proto__'' then Some (Data (JObj kvs))
                     else Object_prototype_get key)
      | Array_prototype xs \<Rightarrow>
          if key = ''__proto__'' then Some (Data (JArr xs)) else ArrayGet rt xs key)"

definition inherited_has :: "js_runtime \<Rightarrow> prototype \<Rightarrow> string \<Rightarrow> bool" where
  "inherited_has rt p key =
     (case p of
        Object_prototype \<Rightarrow> key \<in> set Object_prototype_members
      | Null_prototype \<Rightarrow> False
      | Plain_prototype kvs \<Rightarrow> map_of kvs key \<noteq> None \<or> key \<in> set Object_prototype_members
      | Array_prototype xs \<Rightarrow> key = ''__proto__'' \<or> ArrayHas rt xs key)"

text \<open>
  Whether an assignment to \<^verbatim>\<open>__proto__\<close> on an object without that own property
  reaches the accessor of \<^verbatim>\<open>Object.prototype\<close>: not when the chain ends in
  \<^verbatim>\<open>null\<close>, and not when a plain object on the chain has a data property of that
  name (as \<^verbatim>\<open>JSON.parse\<close> creates it).
\<close>

definition reaches_proto_accessor :: "prototype \<Rightarrow> bool" where
  "reaches_proto_accessor p =
     (case p of
        Object_prototype \<Rightarrow> True
      | Null_prototype \<Rightarrow> False
      | Plain_prototype kvs \<Rightarrow> map_of kvs ''__proto__'' = None
      | Array_prototype xs \<Rightarrow> True)"

text \<open>The read \<^verbatim>\<open>o[key]\<close> and the test \<^verbatim>\<open>key in o\<close>.\<close>

definition js_get :: "js_runtime \<Rightarrow> js_object \<Rightarrow> string \<Rightarrow> jsvalue option" where
  "js_get rt obj key =
     (case map_of (own obj) key of
        Some v \<Rightarrow> Some (Data v)
      | None \<Rightarrow> inherited_get rt (proto obj) key)"

definition js_in :: "js_runtime \<Rightarrow> js_object \<Rightarrow> string \<Rightarrow> bool" where
  "js_in rt obj key = (map_of (own obj) key \<noteq> None \<or> inherited_has rt (proto obj) key)"

text \<open>
  The assignment \<^verbatim>\<open>o[key] = v\<close>. It updates or adds an own property, unless the key
  is \<^verbatim>\<open>__proto__\<close>, the object has no own property of that name and the accessor is
  reached: then the setter runs.
\<close>

definition js_assign :: "js_object \<Rightarrow> string \<Rightarrow> json \<Rightarrow> js_object" where
  "js_assign obj key v =
     (if key = ''__proto__'' \<and> map_of (own obj) key = None \<and> reaches_proto_accessor (proto obj)
      then (case v of
              JNull \<Rightarrow> obj\<lparr>proto := Null_prototype\<rparr>
            | JObj kvs \<Rightarrow> obj\<lparr>proto := Plain_prototype kvs\<rparr>
            | JArr xs \<Rightarrow> obj\<lparr>proto := Array_prototype xs\<rparr>
            | _ \<Rightarrow> obj)
      else obj\<lparr>own := AList.update key v (own obj)\<rparr>)"

text \<open>\<^verbatim>\<open>delete o[key]\<close> removes an own property and nothing else.\<close>

definition js_delete :: "js_object \<Rightarrow> string \<Rightarrow> js_object" where
  "js_delete obj key = obj\<lparr>own := AList.delete key (own obj)\<rparr>"

section \<open>The file system\<close>

text \<open>
  A file has a content and the permission mode it was created with (\<open>None\<close>: the
  system default). \<open>write_fails\<close> and \<open>read_fails\<close> say at which paths
  \<^verbatim>\<open>mkdirSync\<close>/\<^verbatim>\<open>writeFileSync\<close> and \<^verbatim>\<open>readFileSync\<close> throw. \<open>write_calls\<close> records
  every call of \<open>writeToDisk\<close>, oldest first, by the path it was for.
\<close>

record disk_file =
  content :: string
  mode :: "nat option"

record world =
  files :: "string \<Rightarrow> disk_file option"
  write_fails :: "string \<Rightarrow> bool"
  read_fails :: "string \<Rightarrow> bool"
  write_calls :: "string list"

section \<open>ClineFileStorage\<close>

record ClineFileStorageOptions =
  opt_fileMode :: "nat option"

text \<open>
  The fields of the class. \<open>events\<close> is the list of change notifications the store has
  emitted, oldest first.
\<close>

record store =
  name :: string
  data :: js_object
  fsPath :: string
  fileMode :: "nat option"
  events :: "string list"

text \<open>
  Modelled from the spec: \<^verbatim>\<open>ClineSyncStorage.fire\<close> of the base class
  (ClineStorage.ts is not among the sources): it emits one change notification
  for the key.
\<close>

definition fire :: "string \<Rightarrow> store \<Rightarrow> store" where
  "fire key s = s\<lparr>events := events s @ [key]\<rparr>"

definition readFromDisk :: "js_runtime \<Rightarrow> store \<Rightarrow> world \<Rightarrow> js_object" where
  "readFromDisk rt s w =
     (case files w (fsPath s) of
        None \<Rightarrow> \<lparr>own = [], proto = Object_prototype\<rparr>
      | Some f \<Rightarrow>
          if read_fails w (fsPath s) then \<lparr>own = [], proto = Object_prototype\<rparr>
          else (case JSON_parse rt (content f) of
                  None \<Rightarrow> \<lparr>own = [], proto = Object_prototype\<rparr>
                | Some d \<Rightarrow> \<lparr>own = d, proto = Object_prototype\<rparr>))"

text \<open>
  \<^verbatim>\<open>writeFileSync\<close> applies the mode only when it creates the file; a mode of 0 is
  falsy and selects the default options. A failed write is logged and leaves the file
  as it was.
\<close>

definition writeToDisk :: "js_runtime \<Rightarrow> store \<Rightarrow> world \<Rightarrow> world" where
  "writeToDisk rt s w =
     (let w1 = w\<lparr>write_calls := write_calls w @ [fsPath s]\<rparr> in
      if write_fails w (fsPath s) then w1
      else w1\<lparr>files := (files w)(fsPath s \<mapsto>
             \<lparr>content = JSON_stringify rt (own (data s)),
              mode = (case files w (fsPath s) of
                        Some f \<Rightarrow> mode f
                      | None \<Rightarrow> (case fileMode s of
                                   None \<Rightarrow> None
                                 | Some m \<Rightarrow> if m \<noteq> 0 then Some m else None))\<rparr>)\<rparr>)"

definition constructor ::
  "js_runtime \<Rightarrow> string \<Rightarrow> string option \<Rightarrow> ClineFileStorageOptions option \<Rightarrow> world \<Rightarrow> store" where
  "constructor rt filePath name_arg options w =
     (let this = \<lparr>name = (case name_arg of None \<Rightarrow> ''ClineFileStorage'' | Some n \<Rightarrow> n),
                  data = \<lparr>own = [], proto = Object_prototype\<rparr>,
                  fsPath = filePath,
                  fileMode = (case options of None \<Rightarrow> None | Some opts \<Rightarrow> opt_fileMode opts),
                  events = []\<rparr>
      in this\<lparr>data := readFromDisk rt this w\<rparr>)"

text \<open>The protected methods \<^verbatim>\<open>_get\<close>, \<^verbatim>\<open>_set\<close>, \<^verbatim>\<open>_delete\<close> and \<^verbatim>\<open>_keys\<close>.\<close>

definition prot_get :: "js_runtime \<Rightarrow> store \<Rightarrow> string \<Rightarrow> jsvalue option" where
  "prot_get rt s key = js_get rt (data s) key"

definition prot_set :: "js_runtime \<Rightarrow> string \<Rightarrow> json option \<Rightarrow> store \<times> world \<Rightarrow> store \<times> world" where
  "prot_set rt key v = (\<lambda>(s, w).
     let s1 = (case v of
                 None \<Rightarrow> s\<lparr>data := js_delete (data s) key\<rparr>
               | Some x \<Rightarrow> s\<lparr>data := js_assign (data s) key x\<rparr>)
     in (s1, writeToDisk rt s1 w))"

definition prot_delete :: "js_runtime \<Rightarrow> string \<Rightarrow> store \<times> world \<Rightarrow> store \<times> world" where
  "prot_delete rt key = (\<lambda>(s, w).
     let s1 = s\<lparr>data := js_delete (data s) key\<rparr>
     in (s1, writeToDisk rt s1 w))"

definition prot_keys :: "store \<Rightarrow> string list" where
  "prot_keys s = map fst (own (data s))"

text \<open>
  The loop of \<^verbatim>\<open>setBatch\<close> over \<^verbatim>\<open>Object.entries(entries)\<close>, on \<^verbatim>\<open>this.data\<close>
  and the flag \<^verbatim>\<open>changed\<close>.
\<close>

fun setBatch_loop ::
  "js_runtime \<Rightarrow> (string \<times> json option) list \<Rightarrow> js_object \<times> bool \<Rightarrow> js_object \<times> bool" where
  "setBatch_loop rt [] (d, changed) = (d, changed)"
| "setBatch_loop rt ((key, v) # rest) (d, changed) =
     (case v of
        None \<Rightarrow>
          if js_in rt d key
          then setBatch_loop rt rest (js_delete d key, True)
          else setBatch_loop rt rest (d, changed)
      | Some x \<Rightarrow> setBatch_loop rt rest (js_assign d key x, True))"

definition setBatch ::
  "js_runtime \<Rightarrow> (string \<times> json option) list \<Rightarrow> store \<times> world \<Rightarrow> store \<times> world" where
  "setBatch rt entries = (\<lambda>(s, w).
     let (d, changed) = setBatch_loop rt entries (data s, False);
         s1 = s\<lparr>data := d\<rparr>
     in if changed
        then (fold fire (map fst entries) s1, writeToDisk rt s1 w)
        else (s1, w))"

text \<open>
  Modelled from the spec: the public \<^verbatim>\<open>get\<close>, \<^verbatim>\<open>set\<close> and \<^verbatim>\<open>delete\<close> of the
  base class \<^verbatim>\<open>ClineSyncStorage\<close> (ClineStorage.ts is not among the sources).
  \<^verbatim>\<open>get\<close> is a pure read of the in-memory mapping; \<^verbatim>\<open>set\<close> mutates the mapping and
  then persists, \<^verbatim>\<open>undefined\<close> meaning delete; \<^verbatim>\<open>delete\<close> removes the key and
  persists. They delegate to the protected methods above.
\<close>

definition store_get :: "js_runtime \<Rightarrow> store \<Rightarrow> string \<Rightarrow> jsvalue option" where
  "store_get rt s key = prot_get rt s key"

definition store_set :: "js_runtime \<Rightarrow> string \<Rightarrow> json option \<Rightarrow> store \<times> world \<Rightarrow> store \<times> world" where
  "store_set rt key v st = prot_set rt key v st"

definition store_delete :: "js_runtime \<Rightarrow> string \<Rightarrow> store \<times> world \<Rightarrow> store \<times> world" where
  "store_delete rt key st = prot_delete rt key st"

section \<open>The migration from the VSCode stores\<close>

definition CURRENT_MIGRATION_VERSION :: rat where
  "CURRENT_MIGRATION_VERSION = 1"

definition MIGRATION_VERSION_KEY :: string where
  "MIGRATION_VERSION_KEY = ''__migrationVersion''"

record MigrationResult =
  migrated :: bool
  globalStateCount :: nat
  secretsCount :: nat
  workspaceStateCount :: nat
  skippedExisting :: nat

text \<open>
  Modelled from the spec: \<^verbatim>\<open>StorageContext\<close> (storage-context.ts is not among the
  sources) owns three stores, one per domain.
\<close>

record StorageContext =
  globalState :: store
  secrets :: store
  workspaceState :: store

text \<open>
  The three key tables of state-keys.ts, which is not among the sources, are a
  parameter of the migration.
\<close>

record state_keys =
  GlobalStateAndSettingKeys :: "string list"
  SecretKeys :: "string list"
  LocalStateKeys :: "string list"

text \<open>
  The part of \<^verbatim>\<open>vscode.ExtensionContext\<close> the migration reads: the getters of
  \<^verbatim>\<open>globalState\<close>, \<^verbatim>\<open>secrets\<close> (awaited) and \<^verbatim>\<open>workspaceState\<close>. A getter
  throws (\<open>Inl\<close>), or returns \<^verbatim>\<open>undefined\<close> or a value.
\<close>

record ExtensionContext =
  vscode_globalState :: "string \<Rightarrow> error + json option"
  vscode_secrets :: "string \<Rightarrow> error + string option"
  vscode_workspaceState :: "string \<Rightarrow> error + json option"

type_synonym migration_state = "MigrationResult \<times> StorageContext \<times> world"

text \<open>
  The three loops. Each returns the error that left it, if any, and the state reached:
  what was written before a throw stays written.
\<close>

fun migrate_globalState ::
  "js_runtime \<Rightarrow> ExtensionContext \<Rightarrow> string list \<Rightarrow> migration_state \<Rightarrow> error option \<times> migration_state" where
  "migrate_globalState rt vscodeContext [] st = (None, st)"
| "migrate_globalState rt vscodeContext (key # keys) (result, storage, w) =
     (case vscode_globalState vscodeContext key of
        Inl e \<Rightarrow> (Some e, (result, storage, w))
      | Inr None \<Rightarrow> migrate_globalState rt vscodeContext keys (result, storage, w)
      | Inr (Some vscodeValue) \<Rightarrow>
          (case store_get rt (globalState storage) key of
             Some existingFileValue \<Rightarrow>
               migrate_globalState rt vscodeContext keys
                 (result\<lparr>skippedExisting := skippedExisting result + 1\<rparr>, storage, w)
           | None \<Rightarrow>
               (let (s', w') = store_set rt key (Some vscodeValue) (globalState storage, w)
                in migrate_globalState rt vscodeContext keys
                     (result\<lparr>globalStateCount := globalStateCount result + 1\<rparr>,
                      storage\<lparr>globalState := s'\<rparr>, w'))))"

text \<open>
  In the loop over the secrets the body is inside a \<^verbatim>\<open>try\<close> whose \<^verbatim>\<open>catch\<close> logs
  and goes on with the next key.
\<close>

fun migrate_secrets ::
  "js_runtime \<Rightarrow> ExtensionContext \<Rightarrow> string list \<Rightarrow> migration_state \<Rightarrow> migration_state" where
  "migrate_secrets rt vscodeContext [] st = st"
| "migrate_secrets rt vscodeContext (key # keys) (result, storage, w) =
     (case vscode_secrets vscodeContext key of
        Inl e \<Rightarrow> migrate_secrets rt vscodeContext keys (result, storage, w)
      | Inr None \<Rightarrow> migrate_secrets rt vscodeContext keys (result, storage, w)
      | Inr (Some vscodeValue) \<Rightarrow>
          if vscodeValue = '''' then migrate_secrets rt vscodeContext keys (result, storage, w)
          else
            (let existingFileValue = store_get rt (secrets storage) key
             in if existingFileValue \<noteq> None \<and> existingFileValue \<noteq> Some (Data (JStr ''''))
                then migrate_secrets rt vscodeContext keys
                       (result\<lparr>skippedExisting := skippedExisting result + 1\<rparr>, storage, w)
                else
                  (let (s', w') = store_set rt key (Some (JStr vscodeValue)) (secrets storage, w)
                   in migrate_secrets rt vscodeContext keys
                        (result\<lparr>secretsCount := secretsCount result + 1\<rparr>,
                         storage\<lparr>secrets := s'\<rparr>, w'))))"

fun migrate_workspaceState ::
  "js_runtime \<Rightarrow> ExtensionContext \<Rightarrow> string list \<Rightarrow> migration_state \<Rightarrow> error option \<times> migration_state" where
  "migrate_workspaceState rt vscodeContext [] st = (None, st)"
| "migrate_workspaceState rt vscodeContext (key # keys) (result, storage, w) =
     (case vscode_workspaceState vscodeContext key of
        Inl e \<Rightarrow> (Some e, (result, storage, w))
      | Inr None \<Rightarrow> migrate_workspaceState rt vscodeContext keys (result, storage, w)
      | Inr (Some vscodeValue) \<Rightarrow>
          (case store_get rt (workspaceState storage) key of
             Some existingFileValue \<Rightarrow>
               migrate_workspaceState rt vscodeContext keys
                 (result\<lparr>skippedExisting := skippedExisting result + 1\<rparr>, storage, w)
           | None \<Rightarrow>
               (let (s', w') = store_set rt key (Some vscodeValue) (workspaceState storage, w)
                in migrate_workspaceState rt vscodeContext keys
                     (result\<lparr>workspaceStateCount := workspaceStateCount result + 1\<rparr>,
                      storage\<lparr>workspaceState := s'\<rparr>, w'))))"

text \<open>The sentinel check at the head of the function.\<close>

definition already_migrated :: "js_runtime \<Rightarrow> StorageContext \<Rightarrow> bool" where
  "already_migrated rt storage =
     (case store_get rt (globalState storage) MIGRATION_VERSION_KEY of
        None \<Rightarrow> False
      | Some existingVersion \<Rightarrow> js_ge rt existingVersion CURRENT_MIGRATION_VERSION)"

definition initial_result :: MigrationResult where
  "initial_result =
     \<lparr>migrated = False, globalStateCount = 0, secretsCount = 0,
      workspaceStateCount = 0, skippedExisting = 0\<rparr>"

text \<open>
  The function returns the error it throws (\<open>Inl\<close>) or its result, with the stores
  and the file system as it leaves them.
\<close>

definition migrateVSCodeStorageToFiles ::
  "js_runtime \<Rightarrow> state_keys \<Rightarrow> ExtensionContext \<Rightarrow> StorageContext \<times> world
     \<Rightarrow> (error + MigrationResult) \<times> StorageContext \<times> world" where
  "migrateVSCodeStorageToFiles rt keys vscodeContext = (\<lambda>(storage, w).
     let result = initial_result in
     if already_migrated rt storage then (Inr result, storage, w)
     else
       (case migrate_globalState rt vscodeContext (GlobalStateAndSettingKeys keys) (result, storage, w) of
          (Some e, (r1, storage1, w1)) \<Rightarrow> (Inl e, storage1, w1)
        | (None, st1) \<Rightarrow>
            (case migrate_workspaceState rt vscodeContext (LocalStateKeys keys)
                    (migrate_secrets rt vscodeContext (SecretKeys keys) st1) of
               (Some e, (r3, storage3, w3)) \<Rightarrow> (Inl e, storage3, w3)
             | (None, (r3, storage3, w3)) \<Rightarrow>
                 (let (g, w4) = store_set rt MIGRATION_VERSION_KEY
                                  (Some (JNum CURRENT_MIGRATION_VERSION)) (globalState storage3, w3)
                  in (Inr (r3\<lparr>migrated := True\<rparr>), storage3\<lparr>globalState := g\<rparr>, w4)))))"

section \<open>The credential client\<close>

text \<open>
  What a \<^verbatim>\<open>throw\<close> can throw: \<^verbatim>\<open>null\<close> or \<^verbatim>\<open>undefined\<close>, on which reading
  \<^verbatim>\<open>.message\<close> is a \<^verbatim>\<open>TypeError\<close>, or any other value, which stands here as an
  error with a message.
\<close>

datatype thrown = Thrown_nullish | Thrown error

definition TypeError :: error where
  "TypeError = Error ''TypeError''"

text \<open>
  A promise is resolved, rejected or never settled. The gRPC client is outside the
  repository: what a call of its \<^verbatim>\<open>getServerCredentials\<close> does is a parameter. It
  throws, or calls back with an error or with a response (which may be \<^verbatim>\<open>undefined\<close>
  and may carry no \<^verbatim>\<open>env\<close>), or never calls back.
\<close>

datatype 'a promise = Resolved 'a | Rejected error | Pending

record credentials_response =
  response_env :: "(string \<times> string) list option"

datatype rpc_outcome =
    Rpc_throws thrown
  | Rpc_calls_back "error option" "credentials_response option"
  | Rpc_silent

type_synonym credential_client = "string \<Rightarrow> rpc_outcome"

text \<open>
  \<^verbatim>\<open>getClient\<close> with the module variable \<^verbatim>\<open>credentialClient\<close> as state. \<open>connect\<close>
  is what loading the proto definition and constructing the client gives: an error
  thrown, or the client.
\<close>

definition getClient ::
  "(thrown + credential_client) \<Rightarrow> credential_client option
     \<Rightarrow> (thrown + credential_client) \<times> credential_client option" where
  "getClient connect credentialClient =
     (case credentialClient of
        Some c \<Rightarrow> (Inr c, credentialClient)
      | None \<Rightarrow>
          (case connect of
             Inl e \<Rightarrow> (Inl e, None)
           | Inr c \<Rightarrow> (Inr c, Some c)))"

text \<open>
  The \<^verbatim>\<open>catch\<close> block of the executor: it reads \<^verbatim>\<open>err.message\<close> for the log
  line and then resolves. When the read throws, the executor throws and the promise
  is rejected.
\<close>

definition catch_block :: "thrown \<Rightarrow> (string \<times> string) list promise" where
  "catch_block err =
     (case err of
        Thrown_nullish \<Rightarrow> Rejected TypeError
      | Thrown e \<Rightarrow> Resolved [])"

definition getServerCredentials ::
  "(thrown + credential_client) \<Rightarrow> string \<Rightarrow> credential_client option
     \<Rightarrow> (string \<times> string) list promise \<times> credential_client option" where
  "getServerCredentials connect serverName credentialClient =
     (case getClient connect credentialClient of
        (Inl err, cc) \<Rightarrow> (catch_block err, cc)
      | (Inr client, cc) \<Rightarrow>
          (case client serverName of
             Rpc_throws err \<Rightarrow> (catch_block err, cc)
           | Rpc_calls_back (Some err) response \<Rightarrow> (Resolved [], cc)
           | Rpc_calls_back None response \<Rightarrow>
               (Resolved (case response of
                            None \<Rightarrow> []
                          | Some r \<Rightarrow> (case response_env r of None \<Rightarrow> [] | Some m \<Rightarrow> m)), cc)
           | Rpc_silent \<Rightarrow> (Pending, cc)))"

definition resetCredentialClient :: "credential_client option \<Rightarrow> credential_client option" where
  "resetCredentialClient credentialClient = None"

section \<open>The host-bridge handlers of the VSCode extension\<close>

text \<open>
  The protobuf messages. \<^verbatim>\<open>create\<close> builds a message from the fields given. The
  handlers are functions of the request alone; the state of the host they run in
  (\<open>'h\<close>) is threaded through them to state what they leave untouched.
\<close>

record StringRequest =
  request_value :: string

record ServerCredentials =
  serverName :: string
  env :: "(string \<times> string) list"

datatype EmptyRequest = EmptyRequest

definition EmptyRequest_create :: EmptyRequest where
  "EmptyRequest_create = EmptyRequest"

definition ServerCredentials_create :: "string \<Rightarrow> (string \<times> string) list \<Rightarrow> ServerCredentials" where
  "ServerCredentials_create n e = \<lparr>serverName = n, env = e\<rparr>"

definition storeServerCredentials :: "ServerCredentials \<Rightarrow> 'h \<Rightarrow> EmptyRequest \<times> 'h" where
  "storeServerCredentials request h = (EmptyRequest_create, h)"

definition getServerCredentials_vscode :: "StringRequest \<Rightarrow> 'h \<Rightarrow> ServerCredentials \<times> 'h" where
  "getServerCredentials_vscode request h =
     (ServerCredentials_create (request_value request) [], h)"

definition deleteServerCredentials :: "StringRequest \<Rightarrow> 'h \<Rightarrow> EmptyRequest \<times> 'h" where
  "deleteServerCredentials request h = (EmptyRequest_create, h)"

section \<open>Notions used in the statements\<close>

text \<open>
  What \<^verbatim>\<open>setBatch\<close> counts as a change, for keys the mapping does not inherit: an
  entry with a defined value, or the deletion of a key among the own properties.
\<close>

definition batch_changes :: "(string \<times> json option) list \<Rightarrow> jsobject \<Rightarrow> bool" where
  "batch_changes entries d = list_ex (\<lambda>(key, v). v \<noteq> None \<or> map_of d key \<noteq> None) entries"

text \<open>
  A mapping is JSON-serializable for a runtime when parsing its serialization gives
  it back.
\<close>

definition round_trips :: "js_runtime \<Rightarrow> jsobject \<Rightarrow> bool" where
  "round_trips rt d \<longleftrightarrow> JSON_parse rt (JSON_stringify rt d) = Some d"

text \<open>
  The classification of a key by the two sides of the merge. The legacy source holds
  a key when its getter returns a value (for a secret: a non-empty string); a
  destination store holds it when \<^verbatim>\<open>get\<close> is not \<^verbatim>\<open>undefined\<close> (for a secret:
  neither \<^verbatim>\<open>undefined\<close> nor the empty string).
\<close>

definition legacy_defined :: "(string \<Rightarrow> error + json option) \<Rightarrow> string \<Rightarrow> bool" where
  "legacy_defined read key = (case read key of Inr (Some v) \<Rightarrow> True | _ \<Rightarrow> False)"

definition legacy_secret :: "(string \<Rightarrow> error + string option) \<Rightarrow> string \<Rightarrow> bool" where
  "legacy_secret read key = (case read key of Inr (Some v) \<Rightarrow> v \<noteq> '''' | _ \<Rightarrow> False)"

definition holds_value :: "js_runtime \<Rightarrow> store \<Rightarrow> string \<Rightarrow> bool" where
  "holds_value rt s key = (store_get rt s key \<noteq> None)"

definition holds_secret :: "js_runtime \<Rightarrow> store \<Rightarrow> string \<Rightarrow> bool" where
  "holds_secret rt s key =
     (store_get rt s key \<noteq> None \<and> store_get rt s key \<noteq> Some (Data (JStr '''')))"

section \<open>Concrete inputs for the examples\<close>

text \<open>
  A nested value and the text \<^verbatim>\<open>JSON.stringify\<close> prints for the mapping that holds
  it under \<^verbatim>\<open>theme\<close>, with an indentation of 2.
\<close>

definition example_value :: json where
  "example_value = JObj [(''mode'', JStr ''dark''), (''sizes'', JArr [JNum 1, JNum 2])]"

definition example_text :: string where
  \<open>example_text =
     ''{'' @ [CHR 0x0A] @
     ''  "theme": {'' @ [CHR 0x0A] @
     ''    "mode": "dark",'' @ [CHR 0x0A] @
     ''    "sizes": ['' @ [CHR 0x0A] @
     ''      1,'' @ [CHR 0x0A] @
     ''      2'' @ [CHR 0x0A] @
     ''    ]'' @ [CHR 0x0A] @
     ''  }'' @ [CHR 0x0A] @
     ''}''\<close>

text \<open>
  The runtime cut down to the texts of the examples: it prints and parses the mapping
  above, and reads \<^verbatim>\<open>{}\<close> as the empty mapping; every other mapping is printed
  as \<^verbatim>\<open>{}\<close> and every other text is refused. No example reads through an array.
\<close>

definition example_runtime :: js_runtime where
  "example_runtime =
     \<lparr>JSON_stringify = (\<lambda>d. if d = [(''theme'', example_value)] then example_text else ''{}''),
      JSON_parse = (\<lambda>t. if t = example_text then Some [(''theme'', example_value)]
                        else if t = ''{}'' then Some [] else None),
      ToNumber = (\<lambda>v. None),
      ArrayGet = (\<lambda>xs key. None),
      ArrayHas = (\<lambda>xs key. False)\<rparr>"

text \<open>An empty disk on which every read and write succeeds.\<close>

definition example_world :: world where
  "example_world =
     \<lparr>files = (\<lambda>p. None), write_fails = (\<lambda>p. False), read_fails = (\<lambda>p. False),
      write_calls = []\<rparr>"

definition example_store :: "string \<Rightarrow> jsobject \<Rightarrow> store" where
  "example_store path d =
     \<lparr>name = ''ClineFileStorage'', data = \<lparr>own = d, proto = Object_prototype\<rparr>,
      fsPath = path, fileMode = None, events = []\<rparr>"

text \<open>
  A broker that answers for \<^verbatim>\<open>gmail\<close>, reports an error for \<^verbatim>\<open>slack\<close> and
  throws on any other name.
\<close>

definition example_client :: credential_client where
  "example_client n =
     (if n = ''gmail''
      then Rpc_calls_back None (Some \<lparr>response_env = Some [(''TOKEN'', ''abc'')]\<rparr>)
      else if n = ''slack'' then Rpc_calls_back (Some (Error ''UNAVAILABLE'')) None
      else Rpc_throws (Thrown (Error ''closed'')))"

text \<open>
  A migration input. The legacy stores hold two settings, one workspace value and
  three secrets, of which \<^verbatim>\<open>apiKey\<close> cannot be read and \<^verbatim>\<open>legacyKey\<close> is the
  empty string; the destination already holds the setting \<^verbatim>\<open>mode\<close>.
\<close>

definition example_keys :: state_keys where
  "example_keys =
     \<lparr>GlobalStateAndSettingKeys = [''theme'', ''mode''],
      SecretKeys = [''apiKey'', ''token'', ''legacyKey''],
      LocalStateKeys = [''tab'']\<rparr>"

definition example_context :: ExtensionContext where
  "example_context =
     \<lparr>vscode_globalState = (\<lambda>k. if k = ''theme'' then Inr (Some (JStr ''dark''))
                                else if k = ''mode'' then Inr (Some (JStr ''act''))
                                else Inr None),
      vscode_secrets = (\<lambda>k. if k = ''apiKey'' then Inl (Error ''keychain locked'')
                            else if k = ''token'' then Inr (Some ''sk-1'')
                            else if k = ''legacyKey'' then Inr (Some '''')
                            else Inr None),
      vscode_workspaceState = (\<lambda>k. if k = ''tab'' then Inr (Some (JBool True)) else Inr None)\<rparr>"

definition example_storage :: StorageContext where
  "example_storage =
     \<lparr>globalState = example_store ''/data/globalState.json'' [(''mode'', JStr ''plan'')],
      secrets = example_store ''/data/secrets.json'' [],
      workspaceState = example_store ''/data/workspaceState.json'' []\<rparr>"

text \<open>
  A destination that holds nothing but the empty string for the secret \<^verbatim>\<open>token\<close>.
\<close>

definition example_storage_blank :: StorageContext where
  "example_storage_blank =
     \<lparr>globalState = example_store ''/data/globalState.json'' [],
      secrets = example_store ''/data/secrets.json'' [(''token'', JStr '''')],
      workspaceState = example_store ''/data/workspaceState.json'' []\<rparr>"

text \<open>The same legacy stores with a workspace getter that throws.\<close>

definition example_context_failing :: ExtensionContext where
  "example_context_failing =
     example_context\<lparr>vscode_workspaceState := (\<lambda>k. Inl (Error ''disposed''))\<rparr>"

section \<open>Facts about objects and the store\<close>

lemma reaches_accessor_inherited:
  "reaches_proto_accessor p \<Longrightarrow> inherited_has rt p ''__proto__''"
  by (cases p) (simp_all add: reaches_proto_accessor_def inherited_has_def Object_prototype_members_def)

lemma reaches_accessor_get:
  "reaches_proto_accessor p \<Longrightarrow>
     inherited_get rt p ''__proto__'' \<noteq> None \<and> inherited_get rt p ''__proto__'' \<noteq> Some (Data (JStr ''''))"
  by (cases p) (simp_all add: reaches_proto_accessor_def inherited_get_def Object_prototype_get_def)

text \<open>When an assignment adds or updates an own property.\<close>

lemma js_assign_own:
  "\<not> inherited_has rt (proto obj) key \<Longrightarrow>
     js_assign obj key x = obj\<lparr>own := AList.update key x (own obj)\<rparr>"
  using reaches_accessor_inherited[of "proto obj" rt] by (auto simp: js_assign_def)

lemma js_assign_ordinary:
  "key \<noteq> ''__proto__'' \<Longrightarrow> js_assign obj key x = obj\<lparr>own := AList.update key x (own obj)\<rparr>"
  by (simp add: js_assign_def)

lemma js_assign_absent:
  "js_get rt obj key = None \<Longrightarrow> js_assign obj key x = obj\<lparr>own := AList.update key x (own obj)\<rparr>"
  using reaches_accessor_get[of "proto obj" rt]
  by (auto simp: js_assign_def js_get_def split: option.splits)

lemma js_assign_blank:
  "js_get rt obj key = Some (Data (JStr '''')) \<Longrightarrow>
     js_assign obj key x = obj\<lparr>own := AList.update key x (own obj)\<rparr>"
  using reaches_accessor_get[of "proto obj" rt]
  by (auto simp: js_assign_def js_get_def split: option.splits)

lemma js_get_update:
  "js_get rt (obj\<lparr>own := AList.update key x (own obj)\<rparr>) k
     = (if k = key then Some (Data x) else js_get rt obj k)"
  by (simp add: js_get_def update_conv' split: option.splits)

lemma js_in_own:
  "\<not> inherited_has rt (proto obj) key \<Longrightarrow> js_in rt obj key = (map_of (own obj) key \<noteq> None)"
  by (simp add: js_in_def)

lemma store_set_Some:
  "store_set rt key (Some x) (s, w) =
     (s\<lparr>data := js_assign (data s) key x\<rparr>,
      writeToDisk rt (s\<lparr>data := js_assign (data s) key x\<rparr>) w)"
  by (simp add: store_set_def prot_set_def Let_def)

text \<open>
  A \<^verbatim>\<open>set\<close> is read back by \<^verbatim>\<open>get\<close> when the key is not \<^verbatim>\<open>__proto__\<close>, and also
  when \<^verbatim>\<open>get\<close> gave \<^verbatim>\<open>undefined\<close> or the empty string before: then the accessor
  is not in reach.
\<close>

lemma store_get_assign_ordinary:
  "key \<noteq> ''__proto__'' \<Longrightarrow>
     store_get rt (s\<lparr>data := js_assign (data s) key x\<rparr>) k
       = (if k = key then Some (Data x) else store_get rt s k)"
  by (simp add: store_get_def prot_get_def js_assign_ordinary js_get_update)

lemma store_get_assign_absent:
  "store_get rt s key = None \<Longrightarrow>
     store_get rt (s\<lparr>data := js_assign (data s) key x\<rparr>) k
       = (if k = key then Some (Data x) else store_get rt s k)"
  by (simp add: store_get_def prot_get_def js_assign_absent[of rt] js_get_update)

lemma store_get_assign_blank:
  "store_get rt s key = Some (Data (JStr '''')) \<Longrightarrow>
     store_get rt (s\<lparr>data := js_assign (data s) key x\<rparr>) k
       = (if k = key then Some (Data x) else store_get rt s k)"
  by (simp add: store_get_def prot_get_def js_assign_blank[of rt] js_get_update)

lemma holds_value_update:
  "store_get rt s key = None \<Longrightarrow>
     holds_value rt (s\<lparr>data := js_assign (data s) key x\<rparr>) k = (k = key \<or> holds_value rt s k)"
  by (simp add: holds_value_def store_get_assign_absent)

lemma fold_fire: "fold fire ks s = s\<lparr>events := events s @ ks\<rparr>"
  by (induction ks arbitrary: s) (simp_all add: fire_def)

subsection \<open>The loop of setBatch\<close>

text \<open>
  For a batch none of whose keys the object inherits, the loop works on the own
  properties alone and leaves the prototype as it is.
\<close>

lemma setBatch_loop_own:
  "setBatch_loop rt es (d, c) = (d', c') \<Longrightarrow>
   \<forall>key\<in>fst ` set es. \<not> inherited_has rt (proto d) key \<Longrightarrow>
     proto d' = proto d
   \<and> (\<forall>k. map_of (own d') k = (case map_of (rev es) k of Some v \<Rightarrow> v | None \<Rightarrow> map_of (own d) k))
   \<and> c' = (c \<or> batch_changes es (own d))
   \<and> (\<not> batch_changes es (own d) \<longrightarrow> d' = d)"
proof (induction es arbitrary: d c)
  case Nil
  then show ?case by (simp add: batch_changes_def)
next
  case (Cons e es)
  obtain key v where e: "e = (key, v)" by (cases e)
  from Cons.prems(2) e have key: "\<not> inherited_has rt (proto d) key"
    and rest: "\<forall>key\<in>fst ` set es. \<not> inherited_has rt (proto d) key"
    by simp_all
  show ?case
  proof (cases v)
    case None
    show ?thesis
    proof (cases "map_of (own d) key = None")
      case True
      with Cons.prems(1) e None key have "setBatch_loop rt es (d, c) = (d', c')"
        by (simp add: js_in_own)
      from Cons.IH[OF this rest] True e None show ?thesis
        by (auto simp: map_add_def batch_changes_def split: option.splits)
    next
      case False
      with Cons.prems(1) e None key
      have run: "setBatch_loop rt es (js_delete d key, True) = (d', c')"
        by (simp add: js_in_own)
      have "\<forall>k\<in>fst ` set es. \<not> inherited_has rt (proto (js_delete d key)) k"
        using rest by (simp add: js_delete_def)
      from Cons.IH[OF run this] False e None show ?thesis
        by (auto simp: map_add_def batch_changes_def js_delete_def delete_conv' split: option.splits)
    qed
  next
    case (Some x)
    with Cons.prems(1) e key
    have run: "setBatch_loop rt es (d\<lparr>own := AList.update key x (own d)\<rparr>, True) = (d', c')"
      by (simp add: js_assign_own)
    have "\<forall>k\<in>fst ` set es. \<not> inherited_has rt (proto (d\<lparr>own := AList.update key x (own d)\<rparr>)) k"
      using rest by simp
    from Cons.IH[OF run this] e Some show ?thesis
      by (auto simp: map_add_def batch_changes_def update_conv' split: option.splits)
  qed
qed

lemma setBatch_effect:
  assumes "setBatch rt entries (s, w) = (s', w')"
      and "\<forall>key\<in>fst ` set entries. \<not> inherited_has rt (proto (data s)) key"
  shows "proto (data s') = proto (data s)"
    and "map_of (own (data s')) k =
           (case map_of (rev entries) k of Some v \<Rightarrow> v | None \<Rightarrow> map_of (own (data s)) k)"
    and "write_calls w' =
           write_calls w @ (if batch_changes entries (own (data s)) then [fsPath s] else [])"
    and "events s' =
           events s @ (if batch_changes entries (own (data s)) then map fst entries else [])"
    and "batch_changes entries (own (data s)) \<and> \<not> write_fails w (fsPath s) \<longrightarrow>
           map_option content (files w' (fsPath s)) = Some (JSON_stringify rt (own (data s')))"
    and "\<not> batch_changes entries (own (data s)) \<longrightarrow> s' = s \<and> w' = w"
proof -
  obtain d c where loop: "setBatch_loop rt entries (data s, False) = (d, c)"
    by (cases "setBatch_loop rt entries (data s, False)")
  note own = setBatch_loop_own[OF loop assms(2)]
  have c: "c = batch_changes entries (own (data s))"
    using own by simp
  have s': "s' = (if c then fold fire (map fst entries) (s\<lparr>data := d\<rparr>) else s\<lparr>data := d\<rparr>)"
    and w': "w' = (if c then writeToDisk rt (s\<lparr>data := d\<rparr>) w else w)"
    using assms(1) loop by (auto simp: setBatch_def Let_def split: if_splits)
  have d: "data s' = d" using s' by (simp add: fold_fire)
  show "proto (data s') = proto (data s)" using own d by simp
  show "map_of (own (data s')) k =
           (case map_of (rev entries) k of Some v \<Rightarrow> v | None \<Rightarrow> map_of (own (data s)) k)"
    using own d by simp
  show "write_calls w' =
           write_calls w @ (if batch_changes entries (own (data s)) then [fsPath s] else [])"
    using w' c by (simp add: writeToDisk_def Let_def)
  show "events s' =
           events s @ (if batch_changes entries (own (data s)) then map fst entries else [])"
    using s' c by (simp add: fold_fire)
  show "batch_changes entries (own (data s)) \<and> \<not> write_fails w (fsPath s) \<longrightarrow>
           map_option content (files w' (fsPath s)) = Some (JSON_stringify rt (own (data s')))"
    using w' c d by (simp add: writeToDisk_def Let_def)
  show "\<not> batch_changes entries (own (data s)) \<longrightarrow> s' = s \<and> w' = w"
    using s' w' c own by simp
qed

text \<open>
  The test \<^verbatim>\<open>key in this.data\<close> also holds for a key the object only inherits:
  deleting \<^verbatim>\<open>toString\<close> from an empty store removes nothing, and the batch still
  persists and notifies.
\<close>

lemma setBatch_delete_of_inherited_key:
  "setBatch example_runtime [(''toString'', None)] (example_store ''/data/store.json'' [], example_world)
     = (fire ''toString'' (example_store ''/data/store.json'' []),
        writeToDisk example_runtime (example_store ''/data/store.json'' []) example_world)"
  by (simp add: setBatch_def example_store_def js_in_def inherited_has_def
      Object_prototype_members_def js_delete_def Let_def)

section \<open>The claims about the store\<close>

text \<open>
  C3, as the code has it, for a batch none of whose keys names a property that the
  mapping inherits from its prototype chain. \<^verbatim>\<open>setBatch\<close> applies every entry of
  the batch to the own properties of the in-memory mapping (a later entry for a key
  wins over an earlier one, \<^verbatim>\<open>undefined\<close> deletes) and leaves the prototype alone. It
  calls \<open>writeToDisk\<close> once when the batch holds an entry with a defined value or
  deletes a key that is present, and not at all otherwise; a defined value counts as a
  change also when the mapping already holds that value. When it persists, the file
  receives the serialization of the whole new mapping (if the write succeeds) and one
  change notification is emitted per key of the batch, in order; when it does not
  persist, nothing is emitted and the store and the files are as before.
\<close>

theorem setBatch_persists_once_when_flagged:
  "setBatch rt entries (s, w) = (s', w') \<Longrightarrow>
   \<forall>key\<in>fst ` set entries. \<not> inherited_has rt (proto (data s)) key \<Longrightarrow>
     proto (data s') = proto (data s)
   \<and> (\<forall>k. map_of (own (data s')) k =
            (case map_of (rev entries) k of Some v \<Rightarrow> v | None \<Rightarrow> map_of (own (data s)) k))
   \<and> write_calls w' =
       write_calls w @ (if batch_changes entries (own (data s)) then [fsPath s] else [])
   \<and> events s' =
       events s @ (if batch_changes entries (own (data s)) then map fst entries else [])
   \<and> (batch_changes entries (own (data s)) \<and> \<not> write_fails w (fsPath s) \<longrightarrow>
        map_option content (files w' (fsPath s)) = Some (JSON_stringify rt (own (data s'))))
   \<and> (\<not> batch_changes entries (own (data s)) \<longrightarrow> s' = s \<and> w' = w)"
  using setBatch_effect[of rt entries s w s' w'] by blast

text \<open>
  An instance: on a store that holds \<^verbatim>\<open>a\<close>, the batch \<^verbatim>\<open>{a: 2, b: undefined}\<close>
  sets \<^verbatim>\<open>a\<close>, persists once and notifies for both keys.
\<close>

theorem setBatch_persists_once_when_flagged_witness:
  "map_of (own (data (fst (setBatch example_runtime [(''a'', Some (JNum 2)), (''b'', None)]
       (example_store ''/data/store.json'' [(''a'', JNum 1)], example_world))))) ''a'' = Some (JNum 2)
   \<and> write_calls (snd (setBatch example_runtime [(''a'', Some (JNum 2)), (''b'', None)]
       (example_store ''/data/store.json'' [(''a'', JNum 1)], example_world))) = [''/data/store.json'']
   \<and> events (fst (setBatch example_runtime [(''a'', Some (JNum 2)), (''b'', None)]
       (example_store ''/data/store.json'' [(''a'', JNum 1)], example_world))) = [''a'', ''b'']"
proof -
  let ?r = "setBatch example_runtime [(''a'', Some (JNum 2)), (''b'', None)]
       (example_store ''/data/store.json'' [(''a'', JNum 1)], example_world)"
  have run: "setBatch example_runtime [(''a'', Some (JNum 2)), (''b'', None)]
       (example_store ''/data/store.json'' [(''a'', JNum 1)], example_world) = (fst ?r, snd ?r)"
    by simp
  have keys: "\<forall>key\<in>fst ` set [(''a'', Some (JNum 2)), (''b'', None)].
      \<not> inherited_has example_runtime
           (proto (data (example_store ''/data/store.json'' [(''a'', JNum 1)]))) key"
    by (simp add: example_store_def inherited_has_def Object_prototype_members_def)
  have chg: "batch_changes [(''a'', Some (JNum 2)), (''b'', None)]
       (own (data (example_store ''/data/store.json'' [(''a'', JNum 1)])))"
    by (simp add: batch_changes_def)
  from setBatch_persists_once_when_flagged[OF run keys] chg show ?thesis
    by (simp add: example_store_def example_world_def)
qed

text \<open>
  C3 as it is stated fails: a batch that sets \<^verbatim>\<open>a\<close> to the value the mapping already
  holds leaves the mapping as it was, and still persists and notifies.
\<close>

theorem setBatch_persists_without_change:
  "data (fst (setBatch example_runtime [(''a'', Some (JNum 1))]
       (example_store ''/data/store.json'' [(''a'', JNum 1)], example_world)))
     = data (example_store ''/data/store.json'' [(''a'', JNum 1)])
   \<and> write_calls (snd (setBatch example_runtime [(''a'', Some (JNum 1))]
       (example_store ''/data/store.json'' [(''a'', JNum 1)], example_world)))
     = write_calls example_world @ [''/data/store.json'']
   \<and> events (fst (setBatch example_runtime [(''a'', Some (JNum 1))]
       (example_store ''/data/store.json'' [(''a'', JNum 1)], example_world)))
     = [''a'']"
  by (simp add: setBatch_def example_store_def example_world_def writeToDisk_def fire_def Let_def
      js_assign_def)

text \<open>
  A value set under a key other than \<^verbatim>\<open>__proto__\<close> on a store that was just
  constructed is what a new instance constructed on the same path reads back, provided
  the write and the read succeed and the mapping written is JSON-serializable.
\<close>

lemma set_then_reconstruct_reads_back:
  assumes "k \<noteq> ''__proto__''"
      and "store_set rt k (Some v) (constructor rt path nm opts w, w) = (s1, w1)"
      and "\<not> write_fails w path"
      and "\<not> read_fails w path"
      and "round_trips rt (own (data s1))"
  shows "store_get rt (constructor rt path nm' opts' w1) k = Some (Data v)"
  using assms
  by (auto simp: store_set_def prot_set_def constructor_def writeToDisk_def readFromDisk_def
      store_get_def prot_get_def round_trips_def Let_def update_conv' js_assign_ordinary js_get_def)

text \<open>
  C4 fails at the key \<^verbatim>\<open>__proto__\<close>. On a store constructed where no file is,
  \<^verbatim>\<open>set("__proto__", {a: 1})\<close> runs the setter of \<^verbatim>\<open>Object.prototype\<close>: the mapping
  gets a new prototype and no own property, so the file written is \<^verbatim>\<open>{}\<close>, which
  parses back to the mapping serialized. A new instance on the same path reads the
  empty mapping, and its \<^verbatim>\<open>get("__proto__")\<close> is \<^verbatim>\<open>Object.prototype\<close>, not the
  value set.
\<close>

theorem proto_key_is_not_read_back:
  "own (data (fst (store_set example_runtime ''__proto__'' (Some (JObj [(''a'', JNum 1)]))
       (constructor example_runtime ''/data/store.json'' None None example_world, example_world))))
     = []
   \<and> round_trips example_runtime []
   \<and> map_option content
       (files (snd (store_set example_runtime ''__proto__'' (Some (JObj [(''a'', JNum 1)]))
          (constructor example_runtime ''/data/store.json'' None None example_world, example_world)))
        ''/data/store.json'') = Some ''{}''
   \<and> store_get example_runtime
       (constructor example_runtime ''/data/store.json'' None None
          (snd (store_set example_runtime ''__proto__'' (Some (JObj [(''a'', JNum 1)]))
             (constructor example_runtime ''/data/store.json'' None None example_world,
              example_world))))
       ''__proto__'' = Some (Builtin ''Object.prototype'')"
  by (simp add: store_set_def prot_set_def constructor_def readFromDisk_def writeToDisk_def
      store_get_def prot_get_def js_get_def js_assign_def reaches_proto_accessor_def
      inherited_get_def Object_prototype_get_def round_trips_def
      example_world_def example_runtime_def example_text_def Let_def)

text \<open>
  C5. \<^verbatim>\<open>_delete(key)\<close> and \<^verbatim>\<open>_set(key, undefined)\<close> leave the same store and the
  same files, and so do the public \<^verbatim>\<open>delete\<close> and \<^verbatim>\<open>set\<close>.
\<close>

theorem delete_is_set_undefined:
  "prot_delete rt key st = prot_set rt key None st
   \<and> store_delete rt key st = store_set rt key None st"
  by (cases st) (simp add: prot_delete_def prot_set_def store_delete_def store_set_def)

section \<open>The claims about credentials\<close>

text \<open>
  When nothing that is thrown is \<^verbatim>\<open>null\<close> or \<^verbatim>\<open>undefined\<close>,
  \<^verbatim>\<open>getServerCredentials\<close> of the client does not reject. It resolves to the empty
  mapping when the client cannot be created, when the call throws and when the call
  reports an error; when the call succeeds it resolves to the \<^verbatim>\<open>env\<close> of the
  response, or to the empty mapping if the response is missing or carries none.
\<close>

lemma getServerCredentials_resolves:
  "(getClient connect cc = (Inl (Thrown e), cc') \<longrightarrow>
        fst (getServerCredentials connect n cc) = Resolved [])
   \<and> (getClient connect cc = (Inr client, cc') \<longrightarrow>
        (client n = Rpc_throws (Thrown e) \<longrightarrow> fst (getServerCredentials connect n cc) = Resolved [])
      \<and> (client n = Rpc_calls_back (Some e) response \<longrightarrow>
            fst (getServerCredentials connect n cc) = Resolved [])
      \<and> (client n = Rpc_calls_back None (Some \<lparr>response_env = Some m\<rparr>) \<longrightarrow>
            fst (getServerCredentials connect n cc) = Resolved m)
      \<and> (client n = Rpc_calls_back None (Some \<lparr>response_env = None\<rparr>) \<longrightarrow>
            fst (getServerCredentials connect n cc) = Resolved [])
      \<and> (client n = Rpc_calls_back None None \<longrightarrow>
            fst (getServerCredentials connect n cc) = Resolved []))"
  by (auto simp: getServerCredentials_def catch_block_def
      split: prod.splits sum.splits rpc_outcome.splits option.splits)

lemma getServerCredentials_examples:
  "fst (getServerCredentials (Inl (Thrown (Error ''no proto''))) ''gmail'' None) = Resolved []
   \<and> fst (getServerCredentials (Inr example_client) ''gmail'' None) = Resolved [(''TOKEN'', ''abc'')]
   \<and> fst (getServerCredentials (Inr example_client) ''slack'' None) = Resolved []
   \<and> fst (getServerCredentials (Inr example_client) ''jira'' None) = Resolved []"
  by (simp add: getServerCredentials_def getClient_def catch_block_def example_client_def)

text \<open>
  C8 fails when what is thrown is \<^verbatim>\<open>null\<close> or \<^verbatim>\<open>undefined\<close>. If creating the
  client throws \<^verbatim>\<open>null\<close>, the \<^verbatim>\<open>catch\<close> block reads \<^verbatim>\<open>err.message\<close> before it
  resolves; the read throws inside the executor and the promise is rejected.
\<close>

theorem getServerCredentials_rejects_on_thrown_null:
  "fst (getServerCredentials (Inl Thrown_nullish) ''gmail'' None) = Rejected TypeError"
  by (simp add: getServerCredentials_def getClient_def catch_block_def)

lemma fold_storeServerCredentials:
  "fold (\<lambda>c. snd \<circ> storeServerCredentials c) cs h = h"
  by (induction cs) (simp_all add: storeServerCredentials_def)

text \<open>
  C10. The VSCode handler \<^verbatim>\<open>getServerCredentials\<close> answers with the name of the
  request and an empty \<^verbatim>\<open>env\<close>; \<^verbatim>\<open>storeServerCredentials\<close> and
  \<^verbatim>\<open>deleteServerCredentials\<close> answer with the empty message; all three leave the host
  as it was, so a fetch gives no credentials whatever was stored or deleted before.
\<close>

theorem vscode_credential_stubs_constant:
  "getServerCredentials_vscode request h = (\<lparr>serverName = request_value request, env = []\<rparr>, h)
   \<and> storeServerCredentials creds h = (EmptyRequest_create, h)
   \<and> deleteServerCredentials request h = (EmptyRequest_create, h)
   \<and> fst (getServerCredentials_vscode request
        (snd (deleteServerCredentials request'
           (fold (\<lambda>c. snd \<circ> storeServerCredentials c) stored h))))
      = \<lparr>serverName = request_value request, env = []\<rparr>"
  by (simp add: getServerCredentials_vscode_def storeServerCredentials_def
      deleteServerCredentials_def ServerCredentials_create_def fold_storeServerCredentials)

section \<open>Facts about the migration\<close>

subsection \<open>The loop over the global state\<close>

lemma migrate_globalState_frame:
  "migrate_globalState rt vc ks (r, st, w) = (eo, r', st', w') \<Longrightarrow>
     secrets st' = secrets st \<and> workspaceState st' = workspaceState st \<and>
     secretsCount r' = secretsCount r \<and> workspaceStateCount r' = workspaceStateCount r \<and>
     migrated r' = migrated r"
proof (induction ks arbitrary: r st w)
  case Nil
  then show ?case by simp
next
  case (Cons key keys)
  from Cons.prems show ?case
    by (auto simp: store_set_Some split: sum.splits option.splits dest!: Cons.IH)
qed

lemma migrate_globalState_preserves:
  "migrate_globalState rt vc ks (r, st, w) = (eo, r', st', w') \<Longrightarrow>
     store_get rt (globalState st) k = Some v \<Longrightarrow> store_get rt (globalState st') k = Some v"
proof (induction ks arbitrary: r st w)
  case Nil
  then show ?case by simp
next
  case (Cons key keys)
  from Cons.prems show ?case
    by (auto simp: store_set_Some store_get_assign_absent store_get_assign_blank store_get_assign_ordinary split: sum.splits option.splits dest!: Cons.IH)
qed

lemma migrate_globalState_untouched:
  "migrate_globalState rt vc ks (r, st, w) = (eo, r', st', w') \<Longrightarrow>
     k \<notin> set ks \<Longrightarrow> store_get rt (globalState st') k = store_get rt (globalState st) k"
proof (induction ks arbitrary: r st w)
  case Nil
  then show ?case by simp
next
  case (Cons key keys)
  from Cons.prems show ?case
    by (auto simp: store_set_Some store_get_assign_absent store_get_assign_blank store_get_assign_ordinary split: sum.splits option.splits dest!: Cons.IH)
qed

lemma migrate_globalState_error:
  "migrate_globalState rt vc ks (r, st, w) = (eo, r', st', w') \<Longrightarrow>
     (eo = None \<longleftrightarrow> (\<forall>k\<in>set ks. \<not> isl (vscode_globalState vc k))) \<and>
     (\<forall>e. eo = Some e \<longrightarrow> (\<exists>k\<in>set ks. vscode_globalState vc k = Inl e))"
proof (induction ks arbitrary: r st w)
  case Nil
  then show ?case by simp
next
  case (Cons key keys)
  from Cons.prems show ?case
    by (auto simp: store_set_Some split: sum.splits option.splits dest!: Cons.IH)
qed

lemma migrate_globalState_lookup:
  "migrate_globalState rt vc ks (r, st, w) = (None, r', st', w') \<Longrightarrow>
     store_get rt (globalState st') k =
       (case store_get rt (globalState st) k of
          Some v \<Rightarrow> Some v
        | None \<Rightarrow> if k \<in> set ks then (case vscode_globalState vc k of Inr x \<Rightarrow> map_option Data x | Inl e \<Rightarrow> None) else None)"
proof (induction ks arbitrary: r st w)
  case Nil
  then show ?case by (simp split: option.splits)
next
  case (Cons key keys)
  from Cons.prems show ?case
    by (auto simp: store_set_Some store_get_assign_absent store_get_assign_blank store_get_assign_ordinary split: sum.splits option.splits dest!: Cons.IH)
qed

lemma migrate_globalState_counts:
  "migrate_globalState rt vc ks (r, st, w) = (None, r', st', w') \<Longrightarrow> distinct ks \<Longrightarrow>
     skippedExisting r' = skippedExisting r +
        length (filter (\<lambda>k. legacy_defined (vscode_globalState vc) k \<and> holds_value rt (globalState st) k) ks) \<and>
     globalStateCount r' = globalStateCount r +
        length (filter (\<lambda>k. legacy_defined (vscode_globalState vc) k \<and> \<not> holds_value rt (globalState st) k) ks)"
proof (induction ks arbitrary: r st w)
  case Nil
  then show ?case by simp
next
  case (Cons key keys)
  from Cons.prems(2) have fresh: "key \<notin> set keys" and dist: "distinct keys" by simp_all
  show ?case
  proof (cases "vscode_globalState vc key")
    case (Inl e)
    with Cons.prems(1) show ?thesis by simp
  next
    case (Inr ov)
    show ?thesis
    proof (cases ov)
      case None
      with Inr Cons.prems(1) have "migrate_globalState rt vc keys (r, st, w) = (None, r', st', w')"
        by simp
      from Cons.IH[OF this dist] Inr None show ?thesis
        by (simp add: legacy_defined_def)
    next
      case (Some v)
      show ?thesis
      proof (cases "store_get rt (globalState st) key")
        case None
        let ?g = "(globalState st)\<lparr>data := js_assign (data (globalState st)) key v\<rparr>"
        from Inr Some None Cons.prems(1)
        have "migrate_globalState rt vc keys
                (r\<lparr>globalStateCount := globalStateCount r + 1\<rparr>, st\<lparr>globalState := ?g\<rparr>,
                 writeToDisk rt ?g w) = (None, r', st', w')"
          by (simp add: store_set_Some)
        note ih = Cons.IH[OF this dist]
        have "filter (\<lambda>k. legacy_defined (vscode_globalState vc) k \<and> holds_value rt ?g k) keys
            = filter (\<lambda>k. legacy_defined (vscode_globalState vc) k \<and> holds_value rt (globalState st) k) keys"
          using fresh None by (intro filter_cong) (auto simp: holds_value_update)
        moreover
        have "filter (\<lambda>k. legacy_defined (vscode_globalState vc) k \<and> \<not> holds_value rt ?g k) keys
            = filter (\<lambda>k. legacy_defined (vscode_globalState vc) k \<and> \<not> holds_value rt (globalState st) k) keys"
          using fresh None by (intro filter_cong) (auto simp: holds_value_update)
        ultimately show ?thesis
          using ih Inr Some None by (simp add: legacy_defined_def holds_value_def)
      next
        case (Some x)
        with Inr \<open>ov = Some v\<close> Cons.prems(1)
        have "migrate_globalState rt vc keys
                (r\<lparr>skippedExisting := skippedExisting r + 1\<rparr>, st, w) = (None, r', st', w')"
          by simp
        from Cons.IH[OF this dist] Inr \<open>ov = Some v\<close> Some show ?thesis
          by (simp add: legacy_defined_def holds_value_def)
      qed
    qed
  qed
qed

subsection \<open>The loop over the workspace state\<close>

lemma migrate_workspaceState_frame:
  "migrate_workspaceState rt vc ks (r, st, w) = (eo, r', st', w') \<Longrightarrow>
     secrets st' = secrets st \<and> globalState st' = globalState st \<and>
     secretsCount r' = secretsCount r \<and> globalStateCount r' = globalStateCount r \<and>
     migrated r' = migrated r"
proof (induction ks arbitrary: r st w)
  case Nil
  then show ?case by simp
next
  case (Cons key keys)
  from Cons.prems show ?case
    by (auto simp: store_set_Some split: sum.splits option.splits dest!: Cons.IH)
qed

lemma migrate_workspaceState_preserves:
  "migrate_workspaceState rt vc ks (r, st, w) = (eo, r', st', w') \<Longrightarrow>
     store_get rt (workspaceState st) k = Some v \<Longrightarrow> store_get rt (workspaceState st') k = Some v"
proof (induction ks arbitrary: r st w)
  case Nil
  then show ?case by simp
next
  case (Cons key keys)
  from Cons.prems show ?case
    by (auto simp: store_set_Some store_get_assign_absent store_get_assign_blank store_get_assign_ordinary split: sum.splits option.splits dest!: Cons.IH)
qed

lemma migrate_workspaceState_untouched:
  "migrate_workspaceState rt vc ks (r, st, w) = (eo, r', st', w') \<Longrightarrow>
     k \<notin> set ks \<Longrightarrow> store_get rt (workspaceState st') k = store_get rt (workspaceState st) k"
proof (induction ks arbitrary: r st w)
  case Nil
  then show ?case by simp
next
  case (Cons key keys)
  from Cons.prems show ?case
    by (auto simp: store_set_Some store_get_assign_absent store_get_assign_blank store_get_assign_ordinary split: sum.splits option.splits dest!: Cons.IH)
qed

lemma migrate_workspaceState_error:
  "migrate_workspaceState rt vc ks (r, st, w) = (eo, r', st', w') \<Longrightarrow>
     (eo = None \<longleftrightarrow> (\<forall>k\<in>set ks. \<not> isl (vscode_workspaceState vc k))) \<and>
     (\<forall>e. eo = Some e \<longrightarrow> (\<exists>k\<in>set ks. vscode_workspaceState vc k = Inl e))"
proof (induction ks arbitrary: r st w)
  case Nil
  then show ?case by simp
next
  case (Cons key keys)
  from Cons.prems show ?case
    by (auto simp: store_set_Some split: sum.splits option.splits dest!: Cons.IH)
qed

lemma migrate_workspaceState_lookup:
  "migrate_workspaceState rt vc ks (r, st, w) = (None, r', st', w') \<Longrightarrow>
     store_get rt (workspaceState st') k =
       (case store_get rt (workspaceState st) k of
          Some v \<Rightarrow> Some v
        | None \<Rightarrow> if k \<in> set ks then (case vscode_workspaceState vc k of Inr x \<Rightarrow> map_option Data x | Inl e \<Rightarrow> None) else None)"
proof (induction ks arbitrary: r st w)
  case Nil
  then show ?case by (simp split: option.splits)
next
  case (Cons key keys)
  from Cons.prems show ?case
    by (auto simp: store_set_Some store_get_assign_absent store_get_assign_blank store_get_assign_ordinary split: sum.splits option.splits dest!: Cons.IH)
qed

lemma migrate_workspaceState_counts:
  "migrate_workspaceState rt vc ks (r, st, w) = (None, r', st', w') \<Longrightarrow> distinct ks \<Longrightarrow>
     skippedExisting r' = skippedExisting r +
        length (filter (\<lambda>k. legacy_defined (vscode_workspaceState vc) k \<and> holds_value rt (workspaceState st) k) ks) \<and>
     workspaceStateCount r' = workspaceStateCount r +
        length (filter (\<lambda>k. legacy_defined (vscode_workspaceState vc) k \<and> \<not> holds_value rt (workspaceState st) k) ks)"
proof (induction ks arbitrary: r st w)
  case Nil
  then show ?case by simp
next
  case (Cons key keys)
  from Cons.prems(2) have fresh: "key \<notin> set keys" and dist: "distinct keys" by simp_all
  show ?case
  proof (cases "vscode_workspaceState vc key")
    case (Inl e)
    with Cons.prems(1) show ?thesis by simp
  next
    case (Inr ov)
    show ?thesis
    proof (cases ov)
      case None
      with Inr Cons.prems(1) have "migrate_workspaceState rt vc keys (r, st, w) = (None, r', st', w')"
        by simp
      from Cons.IH[OF this dist] Inr None show ?thesis
        by (simp add: legacy_defined_def)
    next
      case (Some v)
      show ?thesis
      proof (cases "store_get rt (workspaceState st) key")
        case None
        let ?g = "(workspaceState st)\<lparr>data := js_assign (data (workspaceState st)) key v\<rparr>"
        from Inr Some None Cons.prems(1)
        have "migrate_workspaceState rt vc keys
                (r\<lparr>workspaceStateCount := workspaceStateCount r + 1\<rparr>, st\<lparr>workspaceState := ?g\<rparr>,
                 writeToDisk rt ?g w) = (None, r', st', w')"
          by (simp add: store_set_Some)
        note ih = Cons.IH[OF this dist]
        have "filter (\<lambda>k. legacy_defined (vscode_workspaceState vc) k \<and> holds_value rt ?g k) keys
            = filter (\<lambda>k. legacy_defined (vscode_workspaceState vc) k \<and> holds_value rt (workspaceState st) k) keys"
          using fresh None by (intro filter_cong) (auto simp: holds_value_update)
        moreover
        have "filter (\<lambda>k. legacy_defined (vscode_workspaceState vc) k \<and> \<not> holds_value rt ?g k) keys
            = filter (\<lambda>k. legacy_defined (vscode_workspaceState vc) k \<and> \<not> holds_value rt (workspaceState st) k) keys"
          using fresh None by (intro filter_cong) (auto simp: holds_value_update)
        ultimately show ?thesis
          using ih Inr Some None by (simp add: legacy_defined_def holds_value_def)
      next
        case (Some x)
        with Inr \<open>ov = Some v\<close> Cons.prems(1)
        have "migrate_workspaceState rt vc keys
                (r\<lparr>skippedExisting := skippedExisting r + 1\<rparr>, st, w) = (None, r', st', w')"
          by simp
        from Cons.IH[OF this dist] Inr \<open>ov = Some v\<close> Some show ?thesis
          by (simp add: legacy_defined_def holds_value_def)
      qed
    qed
  qed
qed

subsection \<open>The loop over the secrets\<close>

lemma store_get_assign_unheld:
  "\<not> holds_secret rt s key \<Longrightarrow>
     store_get rt (s\<lparr>data := js_assign (data s) key x\<rparr>) k
       = (if k = key then Some (Data x) else store_get rt s k)"
  by (auto simp: holds_secret_def store_get_assign_absent store_get_assign_blank)

lemma holds_secret_update:
  "\<not> holds_secret rt s key \<Longrightarrow>
     holds_secret rt (s\<lparr>data := js_assign (data s) key x\<rparr>) k =
       (if k = key then x \<noteq> JStr '''' else holds_secret rt s k)"
  by (auto simp: holds_secret_def store_get_assign_absent store_get_assign_blank)

lemma migrate_secrets_frame:
  "migrate_secrets rt vc ks (r, st, w) = (r', st', w') \<Longrightarrow>
     globalState st' = globalState st \<and> workspaceState st' = workspaceState st \<and>
     globalStateCount r' = globalStateCount r \<and> workspaceStateCount r' = workspaceStateCount r \<and>
     migrated r' = migrated r"
proof (induction ks arbitrary: r st w)
  case Nil
  then show ?case by simp
next
  case (Cons key keys)
  from Cons.prems show ?case
    by (auto simp: store_set_Some Let_def split: sum.splits option.splits if_splits dest!: Cons.IH)
qed

lemma migrate_secrets_lookup:
  "migrate_secrets rt vc ks (r, st, w) = (r', st', w') \<Longrightarrow>
     store_get rt (secrets st') k =
       (if k \<in> set ks \<and> legacy_secret (vscode_secrets vc) k \<and> \<not> holds_secret rt (secrets st) k
        then (case vscode_secrets vc k of Inr (Some v) \<Rightarrow> Some (Data (JStr v)) | _ \<Rightarrow> None)
        else store_get rt (secrets st) k)"
proof (induction ks arbitrary: r st w)
  case Nil
  then show ?case by simp
next
  case (Cons key keys)
  show ?case
  proof (cases "legacy_secret (vscode_secrets vc) key \<and> \<not> holds_secret rt (secrets st) key")
    case False
    with Cons.prems have "migrate_secrets rt vc keys (r, st, w) = (r', st', w')
        \<or> migrate_secrets rt vc keys (r\<lparr>skippedExisting := skippedExisting r + 1\<rparr>, st, w) = (r', st', w')"
      by (auto simp: legacy_secret_def holds_secret_def Let_def split: sum.splits option.splits if_splits)
    then have "store_get rt (secrets st') k =
       (if k \<in> set keys \<and> legacy_secret (vscode_secrets vc) k \<and> \<not> holds_secret rt (secrets st) k
        then (case vscode_secrets vc k of Inr (Some v) \<Rightarrow> Some (Data (JStr v)) | _ \<Rightarrow> None)
        else store_get rt (secrets st) k)"
      using Cons.IH by blast
    with False show ?thesis by auto
  next
    case True
    then obtain v where v: "vscode_secrets vc key = Inr (Some v)" "v \<noteq> ''''"
      by (auto simp: legacy_secret_def split: sum.splits option.splits)
    let ?s = "(secrets st)\<lparr>data := js_assign (data (secrets st)) key (JStr v)\<rparr>"
    from True v Cons.prems
    have "migrate_secrets rt vc keys
            (r\<lparr>secretsCount := secretsCount r + 1\<rparr>, st\<lparr>secrets := ?s\<rparr>, writeToDisk rt ?s w)
          = (r', st', w')"
      by (auto simp: holds_secret_def store_set_Some Let_def)
    from Cons.IH[OF this] True v show ?thesis
      by (auto simp: holds_secret_update store_get_assign_unheld)
  qed
qed

lemma migrate_secrets_counts:
  "migrate_secrets rt vc ks (r, st, w) = (r', st', w') \<Longrightarrow> distinct ks \<Longrightarrow>
     skippedExisting r' = skippedExisting r +
        length (filter (\<lambda>k. legacy_secret (vscode_secrets vc) k \<and> holds_secret rt (secrets st) k) ks) \<and>
     secretsCount r' = secretsCount r +
        length (filter (\<lambda>k. legacy_secret (vscode_secrets vc) k \<and> \<not> holds_secret rt (secrets st) k) ks)"
proof (induction ks arbitrary: r st w)
  case Nil
  then show ?case by simp
next
  case (Cons key keys)
  from Cons.prems(2) have fresh: "key \<notin> set keys" and dist: "distinct keys" by simp_all
  show ?case
  proof (cases "legacy_secret (vscode_secrets vc) key")
    case False
    with Cons.prems(1) have "migrate_secrets rt vc keys (r, st, w) = (r', st', w')"
      by (auto simp: legacy_secret_def Let_def split: sum.splits option.splits if_splits)
    from Cons.IH[OF this dist] False show ?thesis by simp
  next
    case True
    then obtain v where v: "vscode_secrets vc key = Inr (Some v)" "v \<noteq> ''''"
      by (auto simp: legacy_secret_def split: sum.splits option.splits)
    show ?thesis
    proof (cases "holds_secret rt (secrets st) key")
      case True
      with v Cons.prems(1)
      have "migrate_secrets rt vc keys (r\<lparr>skippedExisting := skippedExisting r + 1\<rparr>, st, w)
            = (r', st', w')"
        by (auto simp: holds_secret_def Let_def)
      from Cons.IH[OF this dist] True \<open>legacy_secret (vscode_secrets vc) key\<close> show ?thesis by simp
    next
      case False
      let ?s = "(secrets st)\<lparr>data := js_assign (data (secrets st)) key (JStr v)\<rparr>"
      from False v Cons.prems(1)
      have "migrate_secrets rt vc keys
              (r\<lparr>secretsCount := secretsCount r + 1\<rparr>, st\<lparr>secrets := ?s\<rparr>, writeToDisk rt ?s w)
            = (r', st', w')"
        by (auto simp: holds_secret_def store_set_Some Let_def)
      note ih = Cons.IH[OF this dist]
      have "filter (\<lambda>k. legacy_secret (vscode_secrets vc) k \<and> holds_secret rt ?s k) keys
          = filter (\<lambda>k. legacy_secret (vscode_secrets vc) k \<and> holds_secret rt (secrets st) k) keys"
        using fresh False by (intro filter_cong) (auto simp: holds_secret_update)
      moreover
      have "filter (\<lambda>k. legacy_secret (vscode_secrets vc) k \<and> \<not> holds_secret rt ?s k) keys
          = filter (\<lambda>k. legacy_secret (vscode_secrets vc) k \<and> \<not> holds_secret rt (secrets st) k) keys"
        using fresh False by (intro filter_cong) (auto simp: holds_secret_update)
      ultimately show ?thesis
        using ih False \<open>legacy_secret (vscode_secrets vc) key\<close> by simp
    qed
  qed
qed

text \<open>Without the assumption that the keys are distinct, as a number of keys.\<close>

lemma migrate_secrets_count_card:
  "migrate_secrets rt vc ks (r, st, w) = (r', st', w') \<Longrightarrow>
     secretsCount r' = secretsCount r +
        card {k \<in> set ks. legacy_secret (vscode_secrets vc) k \<and> \<not> holds_secret rt (secrets st) k}"
proof (induction ks arbitrary: r st w)
  case Nil
  then show ?case by simp
next
  case (Cons key keys)
  show ?case
  proof (cases "legacy_secret (vscode_secrets vc) key \<and> \<not> holds_secret rt (secrets st) key")
    case False
    with Cons.prems have "migrate_secrets rt vc keys (r, st, w) = (r', st', w')
        \<or> migrate_secrets rt vc keys (r\<lparr>skippedExisting := skippedExisting r + 1\<rparr>, st, w) = (r', st', w')"
      by (auto simp: legacy_secret_def holds_secret_def Let_def split: sum.splits option.splits if_splits)
    then have "secretsCount r' = secretsCount r +
        card {k \<in> set keys. legacy_secret (vscode_secrets vc) k \<and> \<not> holds_secret rt (secrets st) k}"
      using Cons.IH by fastforce
    moreover have "{k \<in> set (key # keys). legacy_secret (vscode_secrets vc) k \<and> \<not> holds_secret rt (secrets st) k}
        = {k \<in> set keys. legacy_secret (vscode_secrets vc) k \<and> \<not> holds_secret rt (secrets st) k}"
      using False by auto
    ultimately show ?thesis by simp
  next
    case True
    then obtain v where v: "vscode_secrets vc key = Inr (Some v)" "v \<noteq> ''''"
      by (auto simp: legacy_secret_def split: sum.splits option.splits)
    let ?s = "(secrets st)\<lparr>data := js_assign (data (secrets st)) key (JStr v)\<rparr>"
    let ?W = "{k \<in> set keys. legacy_secret (vscode_secrets vc) k \<and> \<not> holds_secret rt (secrets st) k}"
    from True v Cons.prems
    have "migrate_secrets rt vc keys
            (r\<lparr>secretsCount := secretsCount r + 1\<rparr>, st\<lparr>secrets := ?s\<rparr>, writeToDisk rt ?s w)
          = (r', st', w')"
      by (auto simp: holds_secret_def store_set_Some Let_def)
    from Cons.IH[OF this]
    have "secretsCount r' = secretsCount r + 1 +
        card {k \<in> set keys. legacy_secret (vscode_secrets vc) k \<and> \<not> holds_secret rt ?s k}"
      by simp
    moreover have "{k \<in> set keys. legacy_secret (vscode_secrets vc) k \<and> \<not> holds_secret rt ?s k} = ?W - {key}"
      using v True by (auto simp: holds_secret_update)
    moreover have "{k \<in> set (key # keys). legacy_secret (vscode_secrets vc) k \<and> \<not> holds_secret rt (secrets st) k}
        = insert key (?W - {key})"
      using True by auto
    moreover have "card (insert key (?W - {key})) = 1 + card (?W - {key})"
      by (subst card_insert_disjoint) simp_all
    ultimately show ?thesis by simp
  qed
qed

subsection \<open>The whole function\<close>

lemma store_get_sentinel:
  "store_get rt (g\<lparr>data := js_assign (data g) MIGRATION_VERSION_KEY x\<rparr>) k
     = (if k = MIGRATION_VERSION_KEY then Some (Data x) else store_get rt g k)"
  by (rule store_get_assign_ordinary) (simp add: MIGRATION_VERSION_KEY_def)

lemma already_migrated_cong:
  "store_get rt (globalState st') MIGRATION_VERSION_KEY = store_get rt (globalState st) MIGRATION_VERSION_KEY
   \<Longrightarrow> already_migrated rt st' = already_migrated rt st"
  by (simp add: already_migrated_def)

text \<open>The shape of a run in which no getter of the global or workspace state throws.\<close>

lemma migrate_run:
  assumes run: "\<not> already_migrated rt st"
      and g_ok: "\<forall>k\<in>set (GlobalStateAndSettingKeys keys). \<not> isl (vscode_globalState vc k)"
      and w_ok: "\<forall>k\<in>set (LocalStateKeys keys). \<not> isl (vscode_workspaceState vc k)"
  obtains r1 st1 w1 r2 st2 w2 r3 st3 w3 where
      "migrate_globalState rt vc (GlobalStateAndSettingKeys keys) (initial_result, st, w) = (None, r1, st1, w1)"
      "migrate_secrets rt vc (SecretKeys keys) (r1, st1, w1) = (r2, st2, w2)"
      "migrate_workspaceState rt vc (LocalStateKeys keys) (r2, st2, w2) = (None, r3, st3, w3)"
      "migrateVSCodeStorageToFiles rt keys vc (st, w) =
         (Inr (r3\<lparr>migrated := True\<rparr>),
          st3\<lparr>globalState := (globalState st3)\<lparr>data :=
                 js_assign (data (globalState st3)) MIGRATION_VERSION_KEY (JNum CURRENT_MIGRATION_VERSION)\<rparr>\<rparr>,
          writeToDisk rt ((globalState st3)\<lparr>data :=
                 js_assign (data (globalState st3)) MIGRATION_VERSION_KEY (JNum CURRENT_MIGRATION_VERSION)\<rparr>) w3)"
proof -
  obtain eo1 r1 st1 w1 where 1:
    "migrate_globalState rt vc (GlobalStateAndSettingKeys keys) (initial_result, st, w) = (eo1, r1, st1, w1)"
    by (metis prod_cases4)
  with g_ok have e1: "eo1 = None" using migrate_globalState_error[OF 1] by blast
  obtain r2 st2 w2 where 2:
    "migrate_secrets rt vc (SecretKeys keys) (r1, st1, w1) = (r2, st2, w2)"
    by (metis prod_cases3)
  obtain eo3 r3 st3 w3 where 3:
    "migrate_workspaceState rt vc (LocalStateKeys keys) (r2, st2, w2) = (eo3, r3, st3, w3)"
    by (metis prod_cases4)
  with w_ok have e3: "eo3 = None" using migrate_workspaceState_error[OF 3] by blast
  have "migrateVSCodeStorageToFiles rt keys vc (st, w) =
         (Inr (r3\<lparr>migrated := True\<rparr>),
          st3\<lparr>globalState := (globalState st3)\<lparr>data :=
                 js_assign (data (globalState st3)) MIGRATION_VERSION_KEY (JNum CURRENT_MIGRATION_VERSION)\<rparr>\<rparr>,
          writeToDisk rt ((globalState st3)\<lparr>data :=
                 js_assign (data (globalState st3)) MIGRATION_VERSION_KEY (JNum CURRENT_MIGRATION_VERSION)\<rparr>) w3)"
    using run 1 2 3 e1 e3 by (simp add: migrateVSCodeStorageToFiles_def store_set_Some)
  with 1 2 3 e1 e3 show thesis using that by blast
qed

lemma migrate_stores:
  assumes run: "\<not> already_migrated rt st"
      and g_ok: "\<forall>k\<in>set (GlobalStateAndSettingKeys keys). \<not> isl (vscode_globalState vc k)"
      and w_ok: "\<forall>k\<in>set (LocalStateKeys keys). \<not> isl (vscode_workspaceState vc k)"
      and res: "migrateVSCodeStorageToFiles rt keys vc (st, w) = (out, st', w')"
  shows "\<exists>r. out = Inr r \<and> migrated r"
    and "store_get rt (globalState st') k =
       (if k = MIGRATION_VERSION_KEY then Some (Data (JNum CURRENT_MIGRATION_VERSION))
        else case store_get rt (globalState st) k of
          Some v \<Rightarrow> Some v
        | None \<Rightarrow> if k \<in> set (GlobalStateAndSettingKeys keys)
                  then (case vscode_globalState vc k of Inr x \<Rightarrow> map_option Data x | Inl e \<Rightarrow> None) else None)"
    and "store_get rt (secrets st') k =
       (if k \<in> set (SecretKeys keys) \<and> legacy_secret (vscode_secrets vc) k \<and> \<not> holds_secret rt (secrets st) k
        then (case vscode_secrets vc k of Inr (Some v) \<Rightarrow> Some (Data (JStr v)) | _ \<Rightarrow> None)
        else store_get rt (secrets st) k)"
    and "store_get rt (workspaceState st') k =
       (case store_get rt (workspaceState st) k of
          Some v \<Rightarrow> Some v
        | None \<Rightarrow> if k \<in> set (LocalStateKeys keys)
                  then (case vscode_workspaceState vc k of Inr x \<Rightarrow> map_option Data x | Inl e \<Rightarrow> None) else None)"
    and "secretsCount (projr out) =
           card {k \<in> set (SecretKeys keys). legacy_secret (vscode_secrets vc) k \<and> \<not> holds_secret rt (secrets st) k}"
proof -
  from migrate_run[OF run g_ok w_ok, where w = w]
  obtain r1 st1 w1 r2 st2 w2 r3 st3 w3 where
      1: "migrate_globalState rt vc (GlobalStateAndSettingKeys keys) (initial_result, st, w) = (None, r1, st1, w1)"
  and 2: "migrate_secrets rt vc (SecretKeys keys) (r1, st1, w1) = (r2, st2, w2)"
  and 3: "migrate_workspaceState rt vc (LocalStateKeys keys) (r2, st2, w2) = (None, r3, st3, w3)"
  and 4: "migrateVSCodeStorageToFiles rt keys vc (st, w) =
         (Inr (r3\<lparr>migrated := True\<rparr>),
          st3\<lparr>globalState := (globalState st3)\<lparr>data :=
                 js_assign (data (globalState st3)) MIGRATION_VERSION_KEY (JNum CURRENT_MIGRATION_VERSION)\<rparr>\<rparr>,
          writeToDisk rt ((globalState st3)\<lparr>data :=
                 js_assign (data (globalState st3)) MIGRATION_VERSION_KEY (JNum CURRENT_MIGRATION_VERSION)\<rparr>) w3)"
    by blast
  note f1 = migrate_globalState_frame[OF 1] and f2 = migrate_secrets_frame[OF 2]
    and f3 = migrate_workspaceState_frame[OF 3]
  from res 4 have out: "out = Inr (r3\<lparr>migrated := True\<rparr>)"
    and st': "st' = st3\<lparr>globalState := (globalState st3)\<lparr>data :=
                 js_assign (data (globalState st3)) MIGRATION_VERSION_KEY (JNum CURRENT_MIGRATION_VERSION)\<rparr>\<rparr>"
    by simp_all
  show "\<exists>r. out = Inr r \<and> migrated r" using out by simp
  have "globalState st3 = globalState st1" using f2 f3 by simp
  then show "store_get rt (globalState st') k =
       (if k = MIGRATION_VERSION_KEY then Some (Data (JNum CURRENT_MIGRATION_VERSION))
        else case store_get rt (globalState st) k of
          Some v \<Rightarrow> Some v
        | None \<Rightarrow> if k \<in> set (GlobalStateAndSettingKeys keys)
                  then (case vscode_globalState vc k of Inr x \<Rightarrow> map_option Data x | Inl e \<Rightarrow> None) else None)"
    using st' migrate_globalState_lookup[OF 1, of k] by (simp add: store_get_sentinel)
  have "secrets st' = secrets st2" "secrets st1 = secrets st" using st' f1 f3 by simp_all
  then show "store_get rt (secrets st') k =
       (if k \<in> set (SecretKeys keys) \<and> legacy_secret (vscode_secrets vc) k \<and> \<not> holds_secret rt (secrets st) k
        then (case vscode_secrets vc k of Inr (Some v) \<Rightarrow> Some (Data (JStr v)) | _ \<Rightarrow> None)
        else store_get rt (secrets st) k)"
    using migrate_secrets_lookup[OF 2, of k] by simp
  have "workspaceState st' = workspaceState st3" "workspaceState st2 = workspaceState st"
    using st' f1 f2 by simp_all
  then show "store_get rt (workspaceState st') k =
       (case store_get rt (workspaceState st) k of
          Some v \<Rightarrow> Some v
        | None \<Rightarrow> if k \<in> set (LocalStateKeys keys)
                  then (case vscode_workspaceState vc k of Inr x \<Rightarrow> map_option Data x | Inl e \<Rightarrow> None) else None)"
    using migrate_workspaceState_lookup[OF 3, of k] by simp
  have "secretsCount r1 = 0" using f1 by (simp add: initial_result_def)
  then show "secretsCount (projr out) =
           card {k \<in> set (SecretKeys keys). legacy_secret (vscode_secrets vc) k \<and> \<not> holds_secret rt (secrets st) k}"
    using out f3 migrate_secrets_count_card[OF 2] \<open>secrets st1 = secrets st\<close> by simp
qed

lemma migrate_counts:
  assumes run: "\<not> already_migrated rt st"
      and g_ok: "\<forall>k\<in>set (GlobalStateAndSettingKeys keys). \<not> isl (vscode_globalState vc k)"
      and w_ok: "\<forall>k\<in>set (LocalStateKeys keys). \<not> isl (vscode_workspaceState vc k)"
      and dist: "distinct (GlobalStateAndSettingKeys keys)" "distinct (SecretKeys keys)"
                "distinct (LocalStateKeys keys)"
      and res: "migrateVSCodeStorageToFiles rt keys vc (st, w) = (Inr r, st', w')"
  shows "globalStateCount r =
           length (filter (\<lambda>k. legacy_defined (vscode_globalState vc) k \<and> \<not> holds_value rt (globalState st) k)
                     (GlobalStateAndSettingKeys keys))"
    and "secretsCount r =
           length (filter (\<lambda>k. legacy_secret (vscode_secrets vc) k \<and> \<not> holds_secret rt (secrets st) k)
                     (SecretKeys keys))"
    and "workspaceStateCount r =
           length (filter (\<lambda>k. legacy_defined (vscode_workspaceState vc) k \<and> \<not> holds_value rt (workspaceState st) k)
                     (LocalStateKeys keys))"
    and "skippedExisting r =
           length (filter (\<lambda>k. legacy_defined (vscode_globalState vc) k \<and> holds_value rt (globalState st) k)
                     (GlobalStateAndSettingKeys keys))
         + length (filter (\<lambda>k. legacy_secret (vscode_secrets vc) k \<and> holds_secret rt (secrets st) k)
                     (SecretKeys keys))
         + length (filter (\<lambda>k. legacy_defined (vscode_workspaceState vc) k \<and> holds_value rt (workspaceState st) k)
                     (LocalStateKeys keys))"
proof -
  from migrate_run[OF run g_ok w_ok, where w = w]
  obtain r1 st1 w1 r2 st2 w2 r3 st3 w3 where
      1: "migrate_globalState rt vc (GlobalStateAndSettingKeys keys) (initial_result, st, w) = (None, r1, st1, w1)"
  and 2: "migrate_secrets rt vc (SecretKeys keys) (r1, st1, w1) = (r2, st2, w2)"
  and 3: "migrate_workspaceState rt vc (LocalStateKeys keys) (r2, st2, w2) = (None, r3, st3, w3)"
  and 4: "migrateVSCodeStorageToFiles rt keys vc (st, w) =
         (Inr (r3\<lparr>migrated := True\<rparr>),
          st3\<lparr>globalState := (globalState st3)\<lparr>data :=
                 js_assign (data (globalState st3)) MIGRATION_VERSION_KEY (JNum CURRENT_MIGRATION_VERSION)\<rparr>\<rparr>,
          writeToDisk rt ((globalState st3)\<lparr>data :=
                 js_assign (data (globalState st3)) MIGRATION_VERSION_KEY (JNum CURRENT_MIGRATION_VERSION)\<rparr>) w3)"
    by blast
  note f1 = migrate_globalState_frame[OF 1] and f2 = migrate_secrets_frame[OF 2]
    and f3 = migrate_workspaceState_frame[OF 3]
  note c1 = migrate_globalState_counts[OF 1 dist(1)] and c2 = migrate_secrets_counts[OF 2 dist(2)]
    and c3 = migrate_workspaceState_counts[OF 3 dist(3)]
  from res 4 have r: "r = r3\<lparr>migrated := True\<rparr>" by simp
  have s: "secrets st1 = secrets st" "workspaceState st2 = workspaceState st" using f1 f2 by simp_all
  show "globalStateCount r =
           length (filter (\<lambda>k. legacy_defined (vscode_globalState vc) k \<and> \<not> holds_value rt (globalState st) k)
                     (GlobalStateAndSettingKeys keys))"
    using r c1 f2 f3 by (simp add: initial_result_def)
  show "secretsCount r =
           length (filter (\<lambda>k. legacy_secret (vscode_secrets vc) k \<and> \<not> holds_secret rt (secrets st) k)
                     (SecretKeys keys))"
    using r c2 f1 f3 s by (simp add: initial_result_def)
  show "workspaceStateCount r =
           length (filter (\<lambda>k. legacy_defined (vscode_workspaceState vc) k \<and> \<not> holds_value rt (workspaceState st) k)
                     (LocalStateKeys keys))"
    using r c3 f1 f2 s by (simp add: initial_result_def)
  show "skippedExisting r =
           length (filter (\<lambda>k. legacy_defined (vscode_globalState vc) k \<and> holds_value rt (globalState st) k)
                     (GlobalStateAndSettingKeys keys))
         + length (filter (\<lambda>k. legacy_secret (vscode_secrets vc) k \<and> holds_secret rt (secrets st) k)
                     (SecretKeys keys))
         + length (filter (\<lambda>k. legacy_defined (vscode_workspaceState vc) k \<and> holds_value rt (workspaceState st) k)
                     (LocalStateKeys keys))"
    using r c1 c2 c3 s by (simp add: initial_result_def)
qed

text \<open>A call that returns a result has met no throwing getter, and leaves the sentinel set.\<close>

lemma migrate_Inr_no_throw:
  assumes "\<not> already_migrated rt st"
      and "migrateVSCodeStorageToFiles rt keys vc (st, w) = (Inr r, st', w')"
  shows "\<forall>k\<in>set (GlobalStateAndSettingKeys keys). \<not> isl (vscode_globalState vc k)"
    and "\<forall>k\<in>set (LocalStateKeys keys). \<not> isl (vscode_workspaceState vc k)"
proof -
  obtain eo1 r1 st1 w1 where 1:
    "migrate_globalState rt vc (GlobalStateAndSettingKeys keys) (initial_result, st, w) = (eo1, r1, st1, w1)"
    by (metis prod_cases4)
  obtain r2 st2 w2 where 2:
    "migrate_secrets rt vc (SecretKeys keys) (r1, st1, w1) = (r2, st2, w2)"
    by (metis prod_cases3)
  obtain eo3 r3 st3 w3 where 3:
    "migrate_workspaceState rt vc (LocalStateKeys keys) (r2, st2, w2) = (eo3, r3, st3, w3)"
    by (metis prod_cases4)
  from assms 1 have e1: "eo1 = None"
    by (cases eo1) (simp_all add: migrateVSCodeStorageToFiles_def)
  with assms 1 2 3 have e3: "eo3 = None"
    by (cases eo3) (simp_all add: migrateVSCodeStorageToFiles_def)
  show "\<forall>k\<in>set (GlobalStateAndSettingKeys keys). \<not> isl (vscode_globalState vc k)"
    using migrate_globalState_error[OF 1] e1 by blast
  show "\<forall>k\<in>set (LocalStateKeys keys). \<not> isl (vscode_workspaceState vc k)"
    using migrate_workspaceState_error[OF 3] e3 by blast
qed

lemma migrate_Inr_sentinel:
  assumes "migrateVSCodeStorageToFiles rt keys vc (st, w) = (Inr r, st', w')"
  shows "already_migrated rt st'"
proof (cases "already_migrated rt st")
  case True
  with assms show ?thesis by (simp add: migrateVSCodeStorageToFiles_def)
next
  case False
  note ok = migrate_Inr_no_throw[OF False assms]
  from migrate_stores(2)[OF False ok assms, of MIGRATION_VERSION_KEY]
  show ?thesis
    by (simp add: already_migrated_def js_ge_def CURRENT_MIGRATION_VERSION_def)
qed

text \<open>A call in which a getter of the global or workspace state throws.\<close>

lemma migrate_throws:
  assumes run: "\<not> already_migrated rt st"
      and bad: "(\<exists>k\<in>set (GlobalStateAndSettingKeys keys). isl (vscode_globalState vc k))
                \<or> (\<exists>k\<in>set (LocalStateKeys keys). isl (vscode_workspaceState vc k))"
      and res: "migrateVSCodeStorageToFiles rt keys vc (st, w) = (out, st', w')"
  shows "\<exists>e. out = Inl e \<and>
            ((\<exists>k\<in>set (GlobalStateAndSettingKeys keys). vscode_globalState vc k = Inl e)
             \<or> (\<exists>k\<in>set (LocalStateKeys keys). vscode_workspaceState vc k = Inl e))"
    and "MIGRATION_VERSION_KEY \<notin> set (GlobalStateAndSettingKeys keys) \<Longrightarrow>
           store_get rt (globalState st') MIGRATION_VERSION_KEY = store_get rt (globalState st) MIGRATION_VERSION_KEY"
proof -
  obtain eo1 r1 st1 w1 where 1:
    "migrate_globalState rt vc (GlobalStateAndSettingKeys keys) (initial_result, st, w) = (eo1, r1, st1, w1)"
    by (metis prod_cases4)
  obtain r2 st2 w2 where 2:
    "migrate_secrets rt vc (SecretKeys keys) (r1, st1, w1) = (r2, st2, w2)"
    by (metis prod_cases3)
  obtain eo3 r3 st3 w3 where 3:
    "migrate_workspaceState rt vc (LocalStateKeys keys) (r2, st2, w2) = (eo3, r3, st3, w3)"
    by (metis prod_cases4)
  note g = migrate_globalState_error[OF 1] and l = migrate_workspaceState_error[OF 3]
  have split: "(\<exists>e. eo1 = Some e \<and> out = Inl e \<and> st' = st1)
             \<or> (eo1 = None \<and> (\<exists>e. eo3 = Some e \<and> out = Inl e \<and> st' = st3))"
  proof (cases eo1)
    case (Some e)
    with run res 1 show ?thesis by (simp add: migrateVSCodeStorageToFiles_def)
  next
    case None
    with g bad have "\<exists>k\<in>set (LocalStateKeys keys). isl (vscode_workspaceState vc k)" by blast
    with l obtain e where "eo3 = Some e" by (cases eo3) auto
    with None run res 1 2 3 show ?thesis by (simp add: migrateVSCodeStorageToFiles_def)
  qed
  from split g l show "\<exists>e. out = Inl e \<and>
            ((\<exists>k\<in>set (GlobalStateAndSettingKeys keys). vscode_globalState vc k = Inl e)
             \<or> (\<exists>k\<in>set (LocalStateKeys keys). vscode_workspaceState vc k = Inl e))"
    by blast
  assume fresh: "MIGRATION_VERSION_KEY \<notin> set (GlobalStateAndSettingKeys keys)"
  note u = migrate_globalState_untouched[OF 1 fresh]
  have "globalState st3 = globalState st1"
    using migrate_secrets_frame[OF 2] migrate_workspaceState_frame[OF 3] by simp
  with split u show "store_get rt (globalState st') MIGRATION_VERSION_KEY
      = store_get rt (globalState st) MIGRATION_VERSION_KEY"
    by auto
qed

text \<open>The secrets store changes only at keys whose legacy value is a non-empty string.\<close>

lemma migrate_secrets_only_legacy:
  assumes "\<not> legacy_secret (vscode_secrets vc) k"
      and "migrateVSCodeStorageToFiles rt keys vc (st, w) = (out, st', w')"
  shows "store_get rt (secrets st') k = store_get rt (secrets st) k"
proof -
  obtain eo1 r1 st1 w1 where 1:
    "migrate_globalState rt vc (GlobalStateAndSettingKeys keys) (initial_result, st, w) = (eo1, r1, st1, w1)"
    by (metis prod_cases4)
  obtain r2 st2 w2 where 2:
    "migrate_secrets rt vc (SecretKeys keys) (r1, st1, w1) = (r2, st2, w2)"
    by (metis prod_cases3)
  obtain eo3 r3 st3 w3 where 3:
    "migrate_workspaceState rt vc (LocalStateKeys keys) (r2, st2, w2) = (eo3, r3, st3, w3)"
    by (metis prod_cases4)
  note f1 = migrate_globalState_frame[OF 1] and f3 = migrate_workspaceState_frame[OF 3]
  have s2: "store_get rt (secrets st2) k = store_get rt (secrets st) k"
    using migrate_secrets_lookup[OF 2, of k] assms(1) f1 by simp
  from assms(2) 1 2 3 have "secrets st' = secrets st \<or> secrets st' = secrets st1 \<or> secrets st' = secrets st3"
    by (auto simp: migrateVSCodeStorageToFiles_def store_set_Some split: if_splits option.splits)
  with s2 f1 f3 show ?thesis by auto
qed

text \<open>A secret that reads as the empty string could as well read as \<^verbatim>\<open>undefined\<close>.\<close>

lemma migrate_secrets_blank:
  "vscode_secrets vc k = Inr (Some '''') \<Longrightarrow>
     migrate_secrets rt (vc\<lparr>vscode_secrets := (vscode_secrets vc)(k := Inr None)\<rparr>) ks st
       = migrate_secrets rt vc ks st"
proof (induction rt vc ks st rule: migrate_secrets.induct)
  case (1 rt vc st)
  then show ?case by simp
next
  case (2 rt vc key keys result storage w)
  then show ?case
    by (auto simp: Let_def split: sum.splits option.splits prod.splits)
qed

lemma migrate_globalState_secrets_irrelevant:
  "migrate_globalState rt (vc\<lparr>vscode_secrets := f\<rparr>) ks st = migrate_globalState rt vc ks st"
  by (induction rt vc ks st rule: migrate_globalState.induct)
     (auto split: sum.splits option.splits prod.splits)

lemma migrate_workspaceState_secrets_irrelevant:
  "migrate_workspaceState rt (vc\<lparr>vscode_secrets := f\<rparr>) ks st = migrate_workspaceState rt vc ks st"
  by (induction rt vc ks st rule: migrate_workspaceState.induct)
     (auto split: sum.splits option.splits prod.splits)

lemma migrate_secrets_removeAll:
  "\<not> legacy_secret (vscode_secrets vc) k \<Longrightarrow>
     migrate_secrets rt vc (removeAll k ks) st = migrate_secrets rt vc ks st"
proof (induction rt vc ks st rule: migrate_secrets.induct)
  case (1 rt vc st)
  then show ?case by simp
next
  case (2 rt vc key keys result storage w)
  then show ?case
    by (auto simp: Let_def legacy_secret_def split: sum.splits option.splits prod.splits)
qed

subsection \<open>The example runs\<close>

lemmas example_defs =
  example_keys_def example_context_def example_storage_def example_storage_blank_def
  example_context_failing_def example_store_def
  migrateVSCodeStorageToFiles_def already_migrated_def initial_result_def
  store_get_def prot_get_def store_set_Some Let_def
  js_get_def js_assign_def inherited_get_def Object_prototype_get_def
  Object_prototype_members_def reaches_proto_accessor_def
  MIGRATION_VERSION_KEY_def CURRENT_MIGRATION_VERSION_def js_ge_def

lemma example_fresh: "\<not> already_migrated example_runtime example_storage"
  by (simp add: example_defs)

lemma example_blank_fresh: "\<not> already_migrated example_runtime example_storage_blank"
  by (simp add: example_defs)

lemma example_getters_total:
  "\<forall>k\<in>set (GlobalStateAndSettingKeys example_keys). \<not> isl (vscode_globalState example_context k)"
  "\<forall>k\<in>set (LocalStateKeys example_keys). \<not> isl (vscode_workspaceState example_context k)"
  by (simp_all add: example_keys_def example_context_def)

lemma example_distinct:
  "distinct (GlobalStateAndSettingKeys example_keys)"
  "distinct (SecretKeys example_keys)"
  "distinct (LocalStateKeys example_keys)"
  by (simp_all add: example_keys_def)

lemma example_result:
  "(case migrateVSCodeStorageToFiles example_runtime example_keys example_context
          (example_storage, example_world) of
      (out, st', w') \<Rightarrow>
        out = Inr \<lparr>migrated = True, globalStateCount = 1, secretsCount = 1,
                   workspaceStateCount = 1, skippedExisting = 1\<rparr>
        \<and> own (data (globalState st')) =
            [(''mode'', JStr ''plan''), (''theme'', JStr ''dark''), (''__migrationVersion'', JNum 1)]
        \<and> own (data (secrets st')) = [(''token'', JStr ''sk-1'')]
        \<and> own (data (workspaceState st')) = [(''tab'', JBool True)])"
  by (simp add: example_defs)

lemma example_run:
  "fst (migrateVSCodeStorageToFiles example_runtime example_keys example_context
          (example_storage, example_world))
   = Inr \<lparr>migrated = True, globalStateCount = 1, secretsCount = 1, workspaceStateCount = 1,
          skippedExisting = 1\<rparr>"
  using example_result by (simp split: prod.splits)

lemma example_blank_result:
  "(case migrateVSCodeStorageToFiles example_runtime example_keys example_context
          (example_storage_blank, example_world) of
      (out, st', w') \<Rightarrow>
        out = Inr \<lparr>migrated = True, globalStateCount = 2, secretsCount = 1,
                   workspaceStateCount = 1, skippedExisting = 0\<rparr>
        \<and> own (data (secrets st')) = [(''token'', JStr ''sk-1'')])"
  by (simp add: example_defs)

section \<open>The claims about the migration\<close>

text \<open>
  C1, as the code has it. In a migration that runs (the sentinel is not yet at the
  target version) and returns, over key tables without repetitions: every value the
  destination holds before, under any key but the sentinel key, is the value it
  holds after, where the secrets store holds a key when its value is neither
  \<^verbatim>\<open>undefined\<close> nor the empty string; \<open>skippedExisting\<close> is the number of keys of
  the three tables that both sides hold (for a secret: the legacy value a non-empty
  string and the destination value not the empty string), and the three write
  counters are the numbers of keys that the legacy side holds and the destination does
  not, so a key that both sides hold is counted in \<open>skippedExisting\<close> and in
  no write counter.
\<close>

theorem held_values_never_overwritten:
  assumes "\<not> already_migrated rt st"
      and "distinct (GlobalStateAndSettingKeys keys)"
      and "distinct (SecretKeys keys)"
      and "distinct (LocalStateKeys keys)"
      and "migrateVSCodeStorageToFiles rt keys vc (st, w) = (Inr r, st', w')"
  shows "(\<forall>k. k \<noteq> MIGRATION_VERSION_KEY \<and> holds_value rt (globalState st) k \<longrightarrow>
              store_get rt (globalState st') k = store_get rt (globalState st) k)
       \<and> (\<forall>k. holds_secret rt (secrets st) k \<longrightarrow> store_get rt (secrets st') k = store_get rt (secrets st) k)
       \<and> (\<forall>k. holds_value rt (workspaceState st) k \<longrightarrow>
              store_get rt (workspaceState st') k = store_get rt (workspaceState st) k)
       \<and> skippedExisting r =
           length (filter (\<lambda>k. legacy_defined (vscode_globalState vc) k \<and> holds_value rt (globalState st) k)
                     (GlobalStateAndSettingKeys keys))
         + length (filter (\<lambda>k. legacy_secret (vscode_secrets vc) k \<and> holds_secret rt (secrets st) k)
                     (SecretKeys keys))
         + length (filter (\<lambda>k. legacy_defined (vscode_workspaceState vc) k \<and> holds_value rt (workspaceState st) k)
                     (LocalStateKeys keys))
       \<and> globalStateCount r =
           length (filter (\<lambda>k. legacy_defined (vscode_globalState vc) k \<and> \<not> holds_value rt (globalState st) k)
                     (GlobalStateAndSettingKeys keys))
       \<and> secretsCount r =
           length (filter (\<lambda>k. legacy_secret (vscode_secrets vc) k \<and> \<not> holds_secret rt (secrets st) k)
                     (SecretKeys keys))
       \<and> workspaceStateCount r =
           length (filter (\<lambda>k. legacy_defined (vscode_workspaceState vc) k \<and> \<not> holds_value rt (workspaceState st) k)
                     (LocalStateKeys keys))"
proof -
  note ok = migrate_Inr_no_throw[OF assms(1) assms(5)]
  note stores = migrate_stores[OF assms(1) ok assms(5)]
  note counts = migrate_counts[OF assms(1) ok assms(2-5)]
  have g: "\<forall>k. k \<noteq> MIGRATION_VERSION_KEY \<and> holds_value rt (globalState st) k \<longrightarrow>
              store_get rt (globalState st') k = store_get rt (globalState st) k"
    using stores(2) by (auto simp: holds_value_def)
  have s: "\<forall>k. holds_secret rt (secrets st) k \<longrightarrow> store_get rt (secrets st') k = store_get rt (secrets st) k"
    using stores(3) by simp
  have l: "\<forall>k. holds_value rt (workspaceState st) k \<longrightarrow>
              store_get rt (workspaceState st') k = store_get rt (workspaceState st) k"
    using stores(4) by (auto simp: holds_value_def)
  from g s l counts show ?thesis by blast
qed

text \<open>
  An instance: \<^verbatim>\<open>mode\<close> is held by both sides, keeps the destination's value and
  is the one key skipped.
\<close>

theorem held_values_never_overwritten_witness:
  "store_get example_runtime (globalState (fst (snd (migrateVSCodeStorageToFiles example_runtime example_keys
       example_context (example_storage, example_world))))) ''mode'' = Some (Data (JStr ''plan''))
   \<and> skippedExisting (projr (fst (migrateVSCodeStorageToFiles example_runtime example_keys
       example_context (example_storage, example_world)))) = 1
   \<and> globalStateCount (projr (fst (migrateVSCodeStorageToFiles example_runtime example_keys
       example_context (example_storage, example_world)))) = 1"
proof -
  let ?m = "migrateVSCodeStorageToFiles example_runtime example_keys example_context
       (example_storage, example_world)"
  have run: "?m = (Inr (projr (fst ?m)), fst (snd ?m), snd (snd ?m))"
    by (simp add: example_run prod_eq_iff)
  note t = held_values_never_overwritten[OF example_fresh example_distinct run]
  have held: "''mode'' \<noteq> MIGRATION_VERSION_KEY \<and> holds_value example_runtime (globalState example_storage) ''mode''"
    by (simp add: MIGRATION_VERSION_KEY_def holds_value_def example_storage_def example_store_def
        store_get_def prot_get_def js_get_def inherited_get_def
        Object_prototype_get_def Object_prototype_members_def)
  have before: "store_get example_runtime (globalState example_storage) ''mode'' = Some (Data (JStr ''plan''))"
    by (simp add: example_storage_def example_store_def store_get_def prot_get_def js_get_def inherited_get_def
        Object_prototype_get_def Object_prototype_members_def)
  from t held before show ?thesis
    by (simp add: example_keys_def example_context_def example_storage_def example_store_def
        legacy_defined_def legacy_secret_def holds_value_def holds_secret_def store_get_def prot_get_def js_get_def inherited_get_def
        Object_prototype_get_def Object_prototype_members_def)
qed

text \<open>
  C1 as it is stated fails for a secret: \<^verbatim>\<open>token\<close> is defined on both sides, as
  \<^verbatim>\<open>sk-1\<close> in the legacy store and as the empty string in the destination; the
  migration overwrites the destination's value and counts the key in
  \<open>secretsCount\<close>, not in \<open>skippedExisting\<close>.
\<close>

theorem defined_empty_secret_is_overwritten:
  "vscode_secrets example_context ''token'' = Inr (Some ''sk-1'')
   \<and> store_get example_runtime (secrets example_storage_blank) ''token'' = Some (Data (JStr ''''))
   \<and> store_get example_runtime (secrets (fst (snd (migrateVSCodeStorageToFiles example_runtime example_keys
         example_context (example_storage_blank, example_world))))) ''token'' = Some (Data (JStr ''sk-1''))
   \<and> fst (migrateVSCodeStorageToFiles example_runtime example_keys example_context
         (example_storage_blank, example_world))
       = Inr \<lparr>migrated = True, globalStateCount = 2, secretsCount = 1, workspaceStateCount = 1,
              skippedExisting = 0\<rparr>"
  using example_blank_result
  by (simp add: example_context_def example_storage_blank_def example_store_def
      store_get_def prot_get_def js_get_def inherited_get_def
        Object_prototype_get_def Object_prototype_members_def split: prod.splits)

text \<open>
  C2. After a call that returned a result, a second call, whatever the legacy stores
  and the key tables, returns at once: \<open>migrated\<close> is false, every counter is zero,
  and the stores and the files are those the first call left.
\<close>

theorem migration_idempotent:
  "migrateVSCodeStorageToFiles rt keys vc (st, w) = (Inr r, st', w') \<Longrightarrow>
   migrateVSCodeStorageToFiles rt keys' vc' (st', w') =
     (Inr \<lparr>migrated = False, globalStateCount = 0, secretsCount = 0, workspaceStateCount = 0,
           skippedExisting = 0\<rparr>, st', w')"
  using migrate_Inr_sentinel[of rt keys vc st w r st' w']
  by (simp add: migrateVSCodeStorageToFiles_def initial_result_def)

theorem migration_idempotent_witness:
  "migrateVSCodeStorageToFiles example_runtime example_keys example_context
     (snd (migrateVSCodeStorageToFiles example_runtime example_keys example_context
        (example_storage, example_world)))
   = (Inr \<lparr>migrated = False, globalStateCount = 0, secretsCount = 0, workspaceStateCount = 0,
           skippedExisting = 0\<rparr>,
      snd (migrateVSCodeStorageToFiles example_runtime example_keys example_context
        (example_storage, example_world)))"
proof -
  let ?m = "migrateVSCodeStorageToFiles example_runtime example_keys example_context
       (example_storage, example_world)"
  have run: "?m = (Inr (projr (fst ?m)), fst (snd ?m), snd (snd ?m))"
    by (simp add: example_run prod_eq_iff)
  from migration_idempotent[OF run, of example_keys example_context] show ?thesis by simp
qed

text \<open>
  C6. In a migration that runs and in which no getter of the global or workspace
  state throws: if reading the secret \<open>A\<close> throws and the secret \<open>B\<close> reads as a
  non-empty string that the destination lacks, the call returns a result with
  \<open>migrated\<close> true, \<open>B\<close> is in the destination with the legacy value and is
  one of the keys \<open>secretsCount\<close> counts, and the destination is unchanged at \<open>A\<close>.
\<close>

theorem secret_read_failure_is_isolated:
  assumes "\<not> already_migrated rt st"
      and "\<forall>k\<in>set (GlobalStateAndSettingKeys keys). \<not> isl (vscode_globalState vc k)"
      and "\<forall>k\<in>set (LocalStateKeys keys). \<not> isl (vscode_workspaceState vc k)"
      and "A \<in> set (SecretKeys keys)" and "B \<in> set (SecretKeys keys)"
      and "vscode_secrets vc A = Inl e"
      and "vscode_secrets vc B = Inr (Some v)" and "v \<noteq> ''''"
      and "store_get rt (secrets st) B = None"
      and "migrateVSCodeStorageToFiles rt keys vc (st, w) = (out, st', w')"
  shows "(\<exists>r. out = Inr r \<and> migrated r \<and> 0 < secretsCount r \<and>
              secretsCount r = card {k \<in> set (SecretKeys keys).
                  legacy_secret (vscode_secrets vc) k \<and> \<not> holds_secret rt (secrets st) k})
       \<and> B \<in> {k \<in> set (SecretKeys keys).
                  legacy_secret (vscode_secrets vc) k \<and> \<not> holds_secret rt (secrets st) k}
       \<and> A \<notin> {k \<in> set (SecretKeys keys).
                  legacy_secret (vscode_secrets vc) k \<and> \<not> holds_secret rt (secrets st) k}
       \<and> store_get rt (secrets st') B = Some (Data (JStr v))
       \<and> store_get rt (secrets st') A = store_get rt (secrets st) A"
proof -
  let ?W = "{k \<in> set (SecretKeys keys).
                  legacy_secret (vscode_secrets vc) k \<and> \<not> holds_secret rt (secrets st) k}"
  note stores = migrate_stores[OF assms(1-3) assms(10)]
  have B: "B \<in> ?W" using assms(5,7,8,9) by (simp add: legacy_secret_def holds_secret_def)
  have A: "A \<notin> ?W" using assms(6) by (simp add: legacy_secret_def)
  have "finite ?W" by simp
  with B have pos: "0 < card ?W" by (metis card_gt_0_iff empty_iff)
  from stores(1) obtain r where r: "out = Inr r" "migrated r" by blast
  with stores(5) pos have "0 < secretsCount r \<and> secretsCount r = card ?W" by simp
  moreover have "store_get rt (secrets st') B = Some (Data (JStr v))"
    using stores(3)[of B] B assms(7) by simp
  moreover have "\<not> legacy_secret (vscode_secrets vc) A"
    using assms(6) by (simp add: legacy_secret_def)
  then have "store_get rt (secrets st') A = store_get rt (secrets st) A"
    using migrate_secrets_only_legacy assms(10) by blast
  ultimately show ?thesis using r A B by blast
qed

theorem secret_read_failure_is_isolated_witness:
  "(\<exists>r. fst (migrateVSCodeStorageToFiles example_runtime example_keys example_context
             (example_storage, example_world)) = Inr r \<and> migrated r \<and> 0 < secretsCount r)
   \<and> store_get example_runtime (secrets (fst (snd (migrateVSCodeStorageToFiles example_runtime example_keys
         example_context (example_storage, example_world))))) ''token'' = Some (Data (JStr ''sk-1''))
   \<and> store_get example_runtime (secrets (fst (snd (migrateVSCodeStorageToFiles example_runtime example_keys
         example_context (example_storage, example_world))))) ''apiKey'' = None"
proof -
  let ?m = "migrateVSCodeStorageToFiles example_runtime example_keys example_context
       (example_storage, example_world)"
  have run: "?m = (fst ?m, fst (snd ?m), snd (snd ?m))" by simp
  have A: "''apiKey'' \<in> set (SecretKeys example_keys)"
    and B: "''token'' \<in> set (SecretKeys example_keys)"
    by (simp_all add: example_keys_def)
  have rA: "vscode_secrets example_context ''apiKey'' = Inl (Error ''keychain locked'')"
    and rB: "vscode_secrets example_context ''token'' = Inr (Some ''sk-1'')"
    by (simp_all add: example_context_def)
  have v: "''sk-1'' \<noteq> ''''" by simp
  have absent: "store_get example_runtime (secrets example_storage) ''token'' = None"
    and absentA: "store_get example_runtime (secrets example_storage) ''apiKey'' = None"
    by (simp_all add: example_storage_def example_store_def store_get_def prot_get_def js_get_def inherited_get_def
        Object_prototype_get_def Object_prototype_members_def)
  from secret_read_failure_is_isolated[OF example_fresh example_getters_total A B rA rB v absent run]
    absentA
  show ?thesis by auto
qed

text \<open>
  C7. In a migration that runs, over a table of global keys that does not list the
  sentinel key: if a getter of the global or of the workspace state throws, the call
  throws that error, the destination holds under the sentinel key what it held before,
  and the sentinel check fails again, so that a later call that returns has run the
  migration in full (\<open>migrated\<close> is true).
\<close>

theorem sentinel_withheld_on_fatal_error:
  assumes "\<not> already_migrated rt st"
      and "MIGRATION_VERSION_KEY \<notin> set (GlobalStateAndSettingKeys keys)"
      and "(\<exists>k\<in>set (GlobalStateAndSettingKeys keys). isl (vscode_globalState vc k))
           \<or> (\<exists>k\<in>set (LocalStateKeys keys). isl (vscode_workspaceState vc k))"
      and "migrateVSCodeStorageToFiles rt keys vc (st, w) = (out, st', w')"
  shows "(\<exists>e. out = Inl e \<and>
            ((\<exists>k\<in>set (GlobalStateAndSettingKeys keys). vscode_globalState vc k = Inl e)
             \<or> (\<exists>k\<in>set (LocalStateKeys keys). vscode_workspaceState vc k = Inl e)))
       \<and> store_get rt (globalState st') MIGRATION_VERSION_KEY
           = store_get rt (globalState st) MIGRATION_VERSION_KEY
       \<and> \<not> already_migrated rt st'
       \<and> (\<forall>vc' r' st'' w''.
             migrateVSCodeStorageToFiles rt keys vc' (st', w') = (Inr r', st'', w'') \<longrightarrow> migrated r')"
proof -
  note t = migrate_throws[OF assms(1,3,4)]
  from t(2)[OF assms(2)] have same: "store_get rt (globalState st') MIGRATION_VERSION_KEY
           = store_get rt (globalState st) MIGRATION_VERSION_KEY" .
  with assms(1) have again: "\<not> already_migrated rt st'"
    using already_migrated_cong by blast
  have "\<forall>vc' r' st'' w''.
             migrateVSCodeStorageToFiles rt keys vc' (st', w') = (Inr r', st'', w'') \<longrightarrow> migrated r'"
  proof (intro allI impI)
    fix vc' r' st'' w''
    assume res: "migrateVSCodeStorageToFiles rt keys vc' (st', w') = (Inr r', st'', w'')"
    from migrate_stores(1)[OF again migrate_Inr_no_throw[OF again res] res]
    show "migrated r'" by simp
  qed
  with t(1) same again show ?thesis by blast
qed

theorem sentinel_withheld_on_fatal_error_witness:
  "fst (migrateVSCodeStorageToFiles example_runtime example_keys example_context_failing
          (example_storage, example_world)) = Inl (Error ''disposed'')
   \<and> store_get example_runtime (globalState (fst (snd (migrateVSCodeStorageToFiles example_runtime example_keys
        example_context_failing (example_storage, example_world))))) MIGRATION_VERSION_KEY = None
   \<and> \<not> already_migrated example_runtime (fst (snd (migrateVSCodeStorageToFiles example_runtime
        example_keys example_context_failing (example_storage, example_world))))"
proof -
  let ?m = "migrateVSCodeStorageToFiles example_runtime example_keys example_context_failing
       (example_storage, example_world)"
  have run: "?m = (fst ?m, fst (snd ?m), snd (snd ?m))" by simp
  have fresh: "MIGRATION_VERSION_KEY \<notin> set (GlobalStateAndSettingKeys example_keys)"
    by (simp add: MIGRATION_VERSION_KEY_def example_keys_def)
  have bad: "(\<exists>k\<in>set (GlobalStateAndSettingKeys example_keys).
                isl (vscode_globalState example_context_failing k))
           \<or> (\<exists>k\<in>set (LocalStateKeys example_keys).
                isl (vscode_workspaceState example_context_failing k))"
    by (simp add: example_keys_def example_context_failing_def example_context_def)
  have before: "store_get example_runtime (globalState example_storage) MIGRATION_VERSION_KEY = None"
    by (simp add: example_storage_def example_store_def store_get_def prot_get_def js_get_def inherited_get_def
        Object_prototype_get_def Object_prototype_members_def
        MIGRATION_VERSION_KEY_def)
  have errs: "\<And>e. (\<exists>k\<in>set (GlobalStateAndSettingKeys example_keys).
                vscode_globalState example_context_failing k = Inl e)
           \<or> (\<exists>k\<in>set (LocalStateKeys example_keys).
                vscode_workspaceState example_context_failing k = Inl e) \<Longrightarrow> e = Error ''disposed''"
    by (auto simp: example_keys_def example_context_failing_def example_context_def
        split: if_splits)
  from sentinel_withheld_on_fatal_error[OF example_fresh fresh bad run] before errs
  show ?thesis by auto
qed

text \<open>
  C9. A secret that reads as the empty string is treated as absent: the call does
  what it does when the secret reads as \<^verbatim>\<open>undefined\<close>, and what it does when the key
  is not in the table of secret keys at all (same result and counters, same stores,
  same files), and the destination is unchanged at that key. An empty string in the
  destination is treated as absent by the overwrite check: in a migration that runs
  and in which no getter of the global or workspace state throws, a key of the table
  whose legacy value is a non-empty string is written over it and is one of the
  keys \<open>secretsCount\<close> counts.
\<close>

theorem empty_string_secret_is_absent:
  "(vscode_secrets vc k = Inr (Some '''') \<longrightarrow>
       migrateVSCodeStorageToFiles rt keys (vc\<lparr>vscode_secrets := (vscode_secrets vc)(k := Inr None)\<rparr>) (st, w)
         = migrateVSCodeStorageToFiles rt keys vc (st, w)
     \<and> migrateVSCodeStorageToFiles rt (keys\<lparr>SecretKeys := removeAll k (SecretKeys keys)\<rparr>) vc (st, w)
         = migrateVSCodeStorageToFiles rt keys vc (st, w)
     \<and> store_get rt (secrets (fst (snd (migrateVSCodeStorageToFiles rt keys vc (st, w))))) k
         = store_get rt (secrets st) k)
   \<and> (store_get rt (secrets st) k = Some (Data (JStr '''')) \<and> k \<in> set (SecretKeys keys)
        \<and> vscode_secrets vc k = Inr (Some v) \<and> v \<noteq> ''''
        \<and> \<not> already_migrated rt st
        \<and> (\<forall>k\<in>set (GlobalStateAndSettingKeys keys). \<not> isl (vscode_globalState vc k))
        \<and> (\<forall>k\<in>set (LocalStateKeys keys). \<not> isl (vscode_workspaceState vc k)) \<longrightarrow>
       store_get rt (secrets (fst (snd (migrateVSCodeStorageToFiles rt keys vc (st, w))))) k = Some (Data (JStr v))
     \<and> k \<in> {k \<in> set (SecretKeys keys).
                legacy_secret (vscode_secrets vc) k \<and> \<not> holds_secret rt (secrets st) k}
     \<and> (\<exists>r. fst (migrateVSCodeStorageToFiles rt keys vc (st, w)) = Inr r \<and>
              secretsCount r = card {k \<in> set (SecretKeys keys).
                legacy_secret (vscode_secrets vc) k \<and> \<not> holds_secret rt (secrets st) k}))"
proof (intro conjI impI)
  assume blank: "vscode_secrets vc k = Inr (Some '''')"
  show "migrateVSCodeStorageToFiles rt keys (vc\<lparr>vscode_secrets := (vscode_secrets vc)(k := Inr None)\<rparr>) (st, w)
         = migrateVSCodeStorageToFiles rt keys vc (st, w)"
    by (simp add: migrateVSCodeStorageToFiles_def migrate_secrets_blank[OF blank]
        migrate_globalState_secrets_irrelevant migrate_workspaceState_secrets_irrelevant
        cong: prod.case_cong option.case_cong)
  from blank have no: "\<not> legacy_secret (vscode_secrets vc) k"
    by (simp add: legacy_secret_def)
  show "migrateVSCodeStorageToFiles rt (keys\<lparr>SecretKeys := removeAll k (SecretKeys keys)\<rparr>) vc (st, w)
         = migrateVSCodeStorageToFiles rt keys vc (st, w)"
    by (simp add: migrateVSCodeStorageToFiles_def migrate_secrets_removeAll[OF no]
        cong: prod.case_cong option.case_cong)
  show "store_get rt (secrets (fst (snd (migrateVSCodeStorageToFiles rt keys vc (st, w))))) k
         = store_get rt (secrets st) k"
    using migrate_secrets_only_legacy[OF no, of rt keys st w] by (metis prod.collapse)
next
  let ?m = "migrateVSCodeStorageToFiles rt keys vc (st, w)"
  let ?W = "{k \<in> set (SecretKeys keys).
                legacy_secret (vscode_secrets vc) k \<and> \<not> holds_secret rt (secrets st) k}"
  assume a: "store_get rt (secrets st) k = Some (Data (JStr '''')) \<and> k \<in> set (SecretKeys keys)
        \<and> vscode_secrets vc k = Inr (Some v) \<and> v \<noteq> ''''
        \<and> \<not> already_migrated rt st
        \<and> (\<forall>k\<in>set (GlobalStateAndSettingKeys keys). \<not> isl (vscode_globalState vc k))
        \<and> (\<forall>k\<in>set (LocalStateKeys keys). \<not> isl (vscode_workspaceState vc k))"
  have run: "?m = (fst ?m, fst (snd ?m), snd (snd ?m))" by simp
  from a have fresh: "\<not> already_migrated rt st"
    and g_ok: "\<forall>k\<in>set (GlobalStateAndSettingKeys keys). \<not> isl (vscode_globalState vc k)"
    and w_ok: "\<forall>k\<in>set (LocalStateKeys keys). \<not> isl (vscode_workspaceState vc k)"
    by simp_all
  note stores = migrate_stores[OF fresh g_ok w_ok run]
  from a show k: "k \<in> ?W" by (simp add: legacy_secret_def holds_secret_def)
  with a stores(3)[of k]
  show "store_get rt (secrets (fst (snd ?m))) k = Some (Data (JStr v))" by simp
  from stores(1) stores(5)
  show "\<exists>r. fst ?m = Inr r \<and> secretsCount r = card ?W" by auto
qed

theorem empty_string_secret_is_absent_witness:
  "migrateVSCodeStorageToFiles example_runtime
       (example_keys\<lparr>SecretKeys := removeAll ''legacyKey'' (SecretKeys example_keys)\<rparr>)
       example_context (example_storage, example_world)
     = migrateVSCodeStorageToFiles example_runtime example_keys example_context
         (example_storage, example_world)
   \<and> store_get example_runtime (secrets (fst (snd (migrateVSCodeStorageToFiles example_runtime example_keys
         example_context (example_storage, example_world))))) ''legacyKey'' = None
   \<and> store_get example_runtime (secrets (fst (snd (migrateVSCodeStorageToFiles example_runtime example_keys
         example_context (example_storage_blank, example_world))))) ''token'' = Some (Data (JStr ''sk-1''))"
proof -
  have blank: "vscode_secrets example_context ''legacyKey'' = Inr (Some '''')"
    by (simp add: example_context_def)
  have before: "store_get example_runtime (secrets example_storage) ''legacyKey'' = None"
    by (simp add: example_storage_def example_store_def store_get_def prot_get_def js_get_def inherited_get_def
        Object_prototype_get_def Object_prototype_members_def)
  have b: "store_get example_runtime (secrets example_storage_blank) ''token'' = Some (Data (JStr ''''))
        \<and> ''token'' \<in> set (SecretKeys example_keys)
        \<and> vscode_secrets example_context ''token'' = Inr (Some ''sk-1'') \<and> ''sk-1'' \<noteq> ''''
        \<and> \<not> already_migrated example_runtime example_storage_blank
        \<and> (\<forall>k\<in>set (GlobalStateAndSettingKeys example_keys). \<not> isl (vscode_globalState example_context k))
        \<and> (\<forall>k\<in>set (LocalStateKeys example_keys). \<not> isl (vscode_workspaceState example_context k))"
    using example_blank_fresh example_getters_total
    by (simp add: example_storage_blank_def example_store_def store_get_def prot_get_def js_get_def inherited_get_def
        Object_prototype_get_def Object_prototype_members_def
        example_keys_def example_context_def)
  from empty_string_secret_is_absent[of example_context "''legacyKey''" example_runtime example_keys
      example_storage example_world] blank before
  have 1: "migrateVSCodeStorageToFiles example_runtime
       (example_keys\<lparr>SecretKeys := removeAll ''legacyKey'' (SecretKeys example_keys)\<rparr>)
       example_context (example_storage, example_world)
     = migrateVSCodeStorageToFiles example_runtime example_keys example_context
         (example_storage, example_world)"
    and 2: "store_get example_runtime (secrets (fst (snd (migrateVSCodeStorageToFiles example_runtime example_keys
         example_context (example_storage, example_world))))) ''legacyKey'' = None"
    by simp_all
  from empty_string_secret_is_absent[of example_context "''token''" example_runtime example_keys
      example_storage_blank example_world "''sk-1''"] b
  have 3: "store_get example_runtime (secrets (fst (snd (migrateVSCodeStorageToFiles example_runtime example_keys
         example_context (example_storage_blank, example_world))))) ''token'' = Some (Data (JStr ''sk-1''))"
    by blast
  from 1 2 3 show ?thesis by simp
qed

end
